theory Spec2Isabelle
  imports Complex_Main "HOL-Library.Multiset"
begin

section \<open>Go values\<close>

text \<open>
  Go's \<open>int\<close> and \<open>int64\<close> are modelled as HOL integers; the two products that can
  leave the 64-bit range (the skip of a page window and the auto-completion window in
  nanoseconds) are wrapped explicitly with \<open>wrap64\<close>. Counts of documents are
  non-negative, so quotient, remainder and increment on them stay in range.
  Go's \<open>/\<close> and \<open>%\<close> truncate towards zero.
\<close>

definition wrap64 :: "int \<Rightarrow> int" where
  "wrap64 x = (x + 2 ^ 63) mod 2 ^ 64 - 2 ^ 63"

definition go_quo :: "int \<Rightarrow> int \<Rightarrow> int" where
  "go_quo a b = sgn a * sgn b * (\<bar>a\<bar> div \<bar>b\<bar>)"

definition go_rem :: "int \<Rightarrow> int \<Rightarrow> int" where
  "go_rem a b = a - go_quo a b * b"

text \<open>A Go call either panics or returns; an \<open>error\<close> is a message, compared by its text
  (as \<open>err.Error() == "task not found"\<close> in the handlers does).\<close>

datatype 'a go_outcome = Panics string | Returns 'a

type_synonym error = string

text \<open>\<open>time.Time\<close> as nanoseconds since the epoch, \<open>time.Duration\<close> as int64 nanoseconds.\<close>

type_synonym Time = int
type_synonym Duration = int

definition Minute :: Duration where
  "Minute = 60000000000"

definition Add :: "Time \<Rightarrow> Duration \<Rightarrow> Time" where
  "Add t d = t + d"

definition Before :: "Time \<Rightarrow> Time \<Rightarrow> bool" where
  "Before t u \<longleftrightarrow> t < u"

text \<open>\<open>primitive.ObjectID\<close>: an opaque identifier, of which the code uses equality only.\<close>

type_synonym ObjectID = nat

section \<open>models\<close>

type_synonym TaskStatus = string

definition TaskStatusPending :: TaskStatus where
  "TaskStatusPending = ''pending''"

definition TaskStatusInProgress :: TaskStatus where
  "TaskStatusInProgress = ''in_progress''"

definition TaskStatusCompleted :: TaskStatus where
  "TaskStatusCompleted = ''completed''"

type_synonym UserRole = string

definition UserRoleUser :: UserRole where
  "UserRoleUser = ''user''"

definition UserRoleAdmin :: UserRole where
  "UserRoleAdmin = ''admin''"

record Task =
  ID :: ObjectID
  UserID :: ObjectID
  Title :: string
  Description :: string
  Status :: TaskStatus
  CreatedAt :: Time
  UpdatedAt :: Time

record User =
  User_ID :: ObjectID
  Email :: string
  Username :: string
  Password :: string
  Role :: UserRole
  User_CreatedAt :: Time

record TaskListResponse =
  Tasks :: "Task list"
  Page :: int
  Limit :: int
  TotalCount :: int
  TotalPages :: int

section \<open>The MongoDB collection\<close>

text \<open>
  The \<open>tasks\<close> collection is the list of its documents. Every driver call takes a
  \<open>fault\<close>: the error the driver itself reports for that call (a deadline exceeded, a
  lost connection), \<open>None\<close> when the call goes through. A failed call leaves the
  collection as it was.
\<close>

type_synonym fault = "string option"

datatype mongo_error = ErrNoDocuments | DriverError string

record FindOptions =
  opt_Skip :: "int option"
  opt_Limit :: "int option"
  opt_Sort :: "int option"

definition FindOne :: "fault \<Rightarrow> Task list \<Rightarrow> (Task \<Rightarrow> bool) \<Rightarrow> mongo_error + Task" where
  "FindOne f coll q =
     (case f of
        Some e \<Rightarrow> Inl (DriverError e)
      | None \<Rightarrow> (case find q coll of None \<Rightarrow> Inl ErrNoDocuments | Some t \<Rightarrow> Inr t))"

definition CountDocuments :: "fault \<Rightarrow> Task list \<Rightarrow> (Task \<Rightarrow> bool) \<Rightarrow> error + int" where
  "CountDocuments f coll q =
     (case f of Some e \<Rightarrow> Inl e | None \<Rightarrow> Inr (int (length (filter q coll))))"

text \<open>The driver encodes a \<open>time.Time\<close>, in a document and in a query alike, as a
  BSON datetime: the whole milliseconds since the epoch, rounded down. A comparison of a
  query with a stored timestamp is a comparison of these.\<close>

definition bson_DateTime :: "Time \<Rightarrow> int" where
  "bson_DateTime t = t div 1000000"

text \<open>Sorting on \<open>created_at\<close>: direction 1 ascending, -1 descending.\<close>

definition apply_sort :: "int option \<Rightarrow> Task list \<Rightarrow> Task list" where
  "apply_sort dir ts =
     (case dir of
        None \<Rightarrow> ts
      | Some d \<Rightarrow> if d < 0 then sort_key (\<lambda>t. - CreatedAt t) ts else sort_key CreatedAt ts)"

definition apply_skip :: "int option \<Rightarrow> Task list \<Rightarrow> Task list" where
  "apply_skip s ts = (case s of None \<Rightarrow> ts | Some n \<Rightarrow> drop (nat n) ts)"

text \<open>A limit of 0 is no limit; a negative limit returns its absolute value in one batch.\<close>

definition apply_limit :: "int option \<Rightarrow> Task list \<Rightarrow> Task list" where
  "apply_limit l ts =
     (case l of None \<Rightarrow> ts | Some n \<Rightarrow> if n = 0 then ts else take (nat \<bar>n\<bar>) ts)"

text \<open>\<open>Find\<close> followed by \<open>cursor.All\<close>; the server rejects a negative skip.\<close>

definition Find :: "fault \<Rightarrow> Task list \<Rightarrow> (Task \<Rightarrow> bool) \<Rightarrow> FindOptions \<Rightarrow> error + Task list" where
  "Find f coll q opts =
     (case f of
        Some e \<Rightarrow> Inl e
      | None \<Rightarrow>
          (case opt_Skip opts of
             Some s \<Rightarrow>
               if s < 0 then Inl ''skip value must be non-negative''
               else Inr (apply_limit (opt_Limit opts)
                          (apply_skip (opt_Skip opts) (apply_sort (opt_Sort opts) (filter q coll))))
           | None \<Rightarrow>
               Inr (apply_limit (opt_Limit opts) (apply_sort (opt_Sort opts) (filter q coll)))))"

definition cursor_All :: "fault \<Rightarrow> Task list \<Rightarrow> error + Task list" where
  "cursor_All f cur = (case f of Some e \<Rightarrow> Inl e | None \<Rightarrow> Inr cur)"

text \<open>\<open>DeleteOne\<close> and \<open>UpdateOne\<close> act on the first matching document and report how
  many documents they deleted or matched.\<close>

fun delete_first :: "(Task \<Rightarrow> bool) \<Rightarrow> Task list \<Rightarrow> Task list \<times> int" where
  "delete_first q [] = ([], 0)"
| "delete_first q (d # ds) =
     (if q d then (ds, 1) else (case delete_first q ds of (ds', n) \<Rightarrow> (d # ds', n)))"

fun update_first :: "(Task \<Rightarrow> bool) \<Rightarrow> (Task \<Rightarrow> Task) \<Rightarrow> Task list \<Rightarrow> Task list \<times> int" where
  "update_first q u [] = ([], 0)"
| "update_first q u (d # ds) =
     (if q d then (u d # ds, 1) else (case update_first q u ds of (ds', n) \<Rightarrow> (d # ds', n)))"

definition DeleteOne :: "fault \<Rightarrow> Task list \<Rightarrow> (Task \<Rightarrow> bool) \<Rightarrow> error + Task list \<times> int" where
  "DeleteOne f coll q = (case f of Some e \<Rightarrow> Inl e | None \<Rightarrow> Inr (delete_first q coll))"

definition UpdateOne ::
  "fault \<Rightarrow> Task list \<Rightarrow> (Task \<Rightarrow> bool) \<Rightarrow> (Task \<Rightarrow> Task) \<Rightarrow> error + Task list \<times> int" where
  "UpdateOne f coll q u = (case f of Some e \<Rightarrow> Inl e | None \<Rightarrow> Inr (update_first q u coll))"

section \<open>repository/task\_repository.go\<close>

text \<open>
  Every method holds the repository's lock for its whole body, so each is one function
  of the collection. Reads return their result; writes return the collection after the
  call together with the error (\<open>None\<close> for \<open>nil\<close>).
\<close>

record TaskFilter =
  Filter_Status :: "TaskStatus option"
  Filter_Page :: int
  Filter_Limit :: int

definition FindByID :: "fault \<Rightarrow> Task list \<Rightarrow> ObjectID \<Rightarrow> error + Task" where
  "FindByID f coll tid =
     (case FindOne f coll (\<lambda>t. ID t = tid) of
        Inl ErrNoDocuments \<Rightarrow> Inl ''task not found''
      | Inl (DriverError e) \<Rightarrow> Inl (''failed to find task: '' @ e)
      | Inr task \<Rightarrow> Inr task)"

text \<open>The part \<open>FindByUserID\<close> and \<open>FindAll\<close> share, from the count onwards. The filter
  is the method's own copy: the defaults written into it are not seen by the caller.\<close>

definition find_page ::
  "fault \<Rightarrow> fault \<Rightarrow> fault \<Rightarrow> Task list \<Rightarrow> (Task \<Rightarrow> bool) \<Rightarrow> TaskFilter \<Rightarrow> error + Task list \<times> int" where
  "find_page fc ff fa coll query flt =
     (case CountDocuments fc coll query of
        Inl e \<Rightarrow> Inl (''failed to count tasks: '' @ e)
      | Inr totalCount \<Rightarrow>
          let flt = (if Filter_Page flt < 1 then flt\<lparr>Filter_Page := 1\<rparr> else flt);
              flt = (if Filter_Limit flt < 1 then flt\<lparr>Filter_Limit := 10\<rparr> else flt);
              skip = wrap64 ((Filter_Page flt - 1) * Filter_Limit flt);
              findOptions = \<lparr>opt_Skip = Some skip, opt_Limit = Some (Filter_Limit flt),
                             opt_Sort = Some (- 1)\<rparr>
          in (case Find ff coll query findOptions of
                Inl e \<Rightarrow> Inl (''failed to find tasks: '' @ e)
              | Inr cursor \<Rightarrow>
                  (case cursor_All fa cursor of
                     Inl e \<Rightarrow> Inl (''failed to decode tasks: '' @ e)
                   | Inr tasks \<Rightarrow> Inr (tasks, totalCount))))"

definition FindByUserID ::
  "fault \<Rightarrow> fault \<Rightarrow> fault \<Rightarrow> Task list \<Rightarrow> ObjectID \<Rightarrow> TaskFilter \<Rightarrow> error + Task list \<times> int" where
  "FindByUserID fc ff fa coll userID flt =
     find_page fc ff fa coll
       (\<lambda>t. UserID t = userID \<and>
            (case Filter_Status flt of None \<Rightarrow> True | Some s \<Rightarrow> Status t = s))
       flt"

definition FindAll ::
  "fault \<Rightarrow> fault \<Rightarrow> fault \<Rightarrow> Task list \<Rightarrow> TaskFilter \<Rightarrow> error + Task list \<times> int" where
  "FindAll fc ff fa coll flt =
     find_page fc ff fa coll
       (\<lambda>t. case Filter_Status flt of None \<Rightarrow> True | Some s \<Rightarrow> Status t = s)
       flt"

definition Delete :: "fault \<Rightarrow> Task list \<Rightarrow> ObjectID \<Rightarrow> Task list \<times> error option" where
  "Delete f coll tid =
     (case DeleteOne f coll (\<lambda>t. ID t = tid) of
        Inl e \<Rightarrow> (coll, Some (''failed to delete task: '' @ e))
      | Inr (coll', DeletedCount) \<Rightarrow>
          if DeletedCount = 0 then (coll', Some ''task not found'') else (coll', None))"

text \<open>\<open>now\<close> is the value \<open>time.Now()\<close> returns inside \<open>UpdateStatus\<close>.\<close>

definition UpdateStatus ::
  "fault \<Rightarrow> Time \<Rightarrow> Task list \<Rightarrow> ObjectID \<Rightarrow> TaskStatus \<Rightarrow> Task list \<times> error option" where
  "UpdateStatus f now coll tid status =
     (case UpdateOne f coll (\<lambda>t. ID t = tid) (\<lambda>t. t\<lparr>Status := status, UpdatedAt := now\<rparr>) of
        Inl e \<Rightarrow> (coll, Some (''failed to update task status: '' @ e))
      | Inr (coll', MatchedCount) \<Rightarrow>
          if MatchedCount = 0 then (coll', Some ''task not found'') else (coll', None))"

definition FindPendingTasks :: "fault \<Rightarrow> fault \<Rightarrow> Task list \<Rightarrow> Time \<Rightarrow> error + Task list" where
  "FindPendingTasks ff fa coll olderThan =
     (case Find ff coll
             (\<lambda>t. Status t \<in> set [TaskStatusPending, TaskStatusInProgress] \<and>
                  bson_DateTime (CreatedAt t) < bson_DateTime olderThan)
             \<lparr>opt_Skip = None, opt_Limit = None, opt_Sort = Some 1\<rparr> of
        Inl e \<Rightarrow> Inl (''failed to find pending tasks: '' @ e)
      | Inr cursor \<Rightarrow>
          (case cursor_All fa cursor of
             Inl e \<Rightarrow> Inl (''failed to decode tasks: '' @ e)
           | Inr tasks \<Rightarrow> Inr tasks))"

section \<open>service/task\_service.go\<close>

definition IsValidStatus :: "TaskStatus \<Rightarrow> bool" where
  "IsValidStatus status \<longleftrightarrow>
     status = TaskStatusPending \<or> status = TaskStatusInProgress \<or> status = TaskStatusCompleted"

definition GetTask :: "fault \<Rightarrow> Task list \<Rightarrow> ObjectID \<Rightarrow> User \<Rightarrow> error + Task" where
  "GetTask f coll taskID user =
     (case FindByID f coll taskID of
        Inl err \<Rightarrow> Inl err
      | Inr task \<Rightarrow>
          if Role user \<noteq> UserRoleAdmin \<and> UserID task \<noteq> User_ID user
          then Inl ''unauthorized access to task''
          else Inr task)"

definition ListTasks ::
  "fault \<Rightarrow> fault \<Rightarrow> fault \<Rightarrow> Task list \<Rightarrow> User \<Rightarrow> TaskFilter \<Rightarrow>
     (error + TaskListResponse) go_outcome" where
  "ListTasks fc ff fa coll user flt =
     (case (if Role user = UserRoleAdmin then FindAll fc ff fa coll flt
            else FindByUserID fc ff fa coll (User_ID user) flt) of
        Inl err \<Rightarrow> Returns (Inl err)
      | Inr (tasks, totalCount) \<Rightarrow>
          if Filter_Limit flt = 0 then Panics ''runtime error: integer divide by zero''
          else
            let totalPages = go_quo totalCount (Filter_Limit flt);
                totalPages = (if go_rem totalCount (Filter_Limit flt) > 0
                              then totalPages + 1 else totalPages)
            in Returns (Inr \<lparr>Tasks = tasks, Page = Filter_Page flt,
                             Limit = Filter_Limit flt, TotalCount = totalCount,
                             TotalPages = totalPages\<rparr>))"

definition DeleteTask ::
  "fault \<Rightarrow> fault \<Rightarrow> Task list \<Rightarrow> ObjectID \<Rightarrow> User \<Rightarrow> Task list \<times> error option" where
  "DeleteTask f_find f_del coll taskID user =
     (case FindByID f_find coll taskID of
        Inl err \<Rightarrow> (coll, Some err)
      | Inr task \<Rightarrow>
          if Role user \<noteq> UserRoleAdmin \<and> UserID task \<noteq> User_ID user
          then (coll, Some ''unauthorized to delete this task'')
          else Delete f_del coll taskID)"

section \<open>handler/task\_handler.go\<close>

text \<open>
  A handler answers with \<open>RespondError\<close> or \<open>RespondJSON\<close>, each with its status
  code. The request is the authenticated user (\<open>None\<close> when \<open>GetUserFromContext\<close>
  fails) and, for \<open>GetTask\<close> and \<open>DeleteTask\<close>, the identifier
  \<open>primitive.ObjectIDFromHex\<close> reads from the path (\<open>None\<close> when it returns an
  error); for \<open>ListTasks\<close>, the three query parameters as \<open>r.URL.Query().Get\<close>
  returns them (the empty string when absent), with \<open>atoi\<close> standing for
  \<open>strconv.Atoi\<close> (\<open>None\<close> when it returns an error).
\<close>

datatype 'a http_response = RespondError int string | RespondJSON int 'a

definition TaskHandler_GetTask ::
  "fault \<Rightarrow> Task list \<Rightarrow> User option \<Rightarrow> ObjectID option \<Rightarrow> Task http_response" where
  "TaskHandler_GetTask f coll ctx_user hex_id =
     (case ctx_user of
        None \<Rightarrow> RespondError 401 ''unauthorized''
      | Some user \<Rightarrow>
          (case hex_id of
             None \<Rightarrow> RespondError 400 ''invalid task ID''
           | Some taskID \<Rightarrow>
               (case GetTask f coll taskID user of
                  Inl err \<Rightarrow>
                    if err = ''task not found'' then RespondError 404 ''task not found''
                    else if err = ''unauthorized access to task''
                      then RespondError 403 ''you don't have permission to access this task''
                    else RespondError 500 ''failed to get task''
                | Inr task \<Rightarrow> RespondJSON 200 task)))"

definition TaskHandler_DeleteTask ::
  "fault \<Rightarrow> fault \<Rightarrow> Task list \<Rightarrow> User option \<Rightarrow> ObjectID option \<Rightarrow>
     Task list \<times> (string \<times> string) list http_response" where
  "TaskHandler_DeleteTask f_find f_del coll ctx_user hex_id =
     (case ctx_user of
        None \<Rightarrow> (coll, RespondError 401 ''unauthorized'')
      | Some user \<Rightarrow>
          (case hex_id of
             None \<Rightarrow> (coll, RespondError 400 ''invalid task ID'')
           | Some taskID \<Rightarrow>
               (case DeleteTask f_find f_del coll taskID user of
                  (coll', Some err) \<Rightarrow>
                    if err = ''task not found'' then (coll', RespondError 404 ''task not found'')
                    else if err = ''unauthorized to delete this task''
                      then (coll', RespondError 403 ''you don't have permission to delete this task'')
                    else (coll', RespondError 500 ''failed to delete task'')
                | (coll', None) \<Rightarrow>
                    (coll', RespondJSON 200 [(''message'', ''task deleted successfully'')]))))"

definition ListTasks_filter ::
  "(string \<Rightarrow> int option) \<Rightarrow> string \<Rightarrow> string \<Rightarrow> string \<Rightarrow> error + TaskFilter" where
  "ListTasks_filter atoi pageStr limitStr statusStr =
     (let flt = \<lparr>Filter_Status = None, Filter_Page = 1, Filter_Limit = 10\<rparr>;
          flt = (if pageStr \<noteq> [] then
                   (case atoi pageStr of
                      Some page \<Rightarrow> if page > 0 then flt\<lparr>Filter_Page := page\<rparr> else flt
                    | None \<Rightarrow> flt)
                 else flt);
          flt = (if limitStr \<noteq> [] then
                   (case atoi limitStr of
                      Some limit \<Rightarrow>
                        if limit > 0 \<and> limit \<le> 100 then flt\<lparr>Filter_Limit := limit\<rparr> else flt
                    | None \<Rightarrow> flt)
                 else flt)
      in if statusStr \<noteq> [] then
           (if IsValidStatus statusStr then Inr (flt\<lparr>Filter_Status := Some statusStr\<rparr>)
            else Inl ''invalid status filter, must be one of: pending, in_progress, completed'')
         else Inr flt)"

definition TaskHandler_ListTasks ::
  "(string \<Rightarrow> int option) \<Rightarrow> fault \<Rightarrow> fault \<Rightarrow> fault \<Rightarrow> Task list \<Rightarrow>
     User option \<Rightarrow> string \<Rightarrow> string \<Rightarrow> string \<Rightarrow>
     TaskListResponse http_response go_outcome" where
  "TaskHandler_ListTasks atoi fc ff fa coll ctx_user pageStr limitStr statusStr =
     (case ctx_user of
        None \<Rightarrow> Returns (RespondError 401 ''unauthorized'')
      | Some user \<Rightarrow>
          (case ListTasks_filter atoi pageStr limitStr statusStr of
             Inl msg \<Rightarrow> Returns (RespondError 400 msg)
           | Inr flt \<Rightarrow>
               (case ListTasks fc ff fa coll user flt of
                  Panics p \<Rightarrow> Panics p
                | Returns (Inl err) \<Rightarrow> Returns (RespondError 500 ''failed to list tasks'')
                | Returns (Inr response) \<Rightarrow> Returns (RespondJSON 200 response))))"

section \<open>The background worker\<close>

subsection \<open>The buffered channel\<close>

record chan =
  chan_buf :: "ObjectID list"
  chan_cap :: nat
  chan_closed :: bool

definition make_chan :: "nat \<Rightarrow> chan" where
  "make_chan n = \<lparr>chan_buf = [], chan_cap = n, chan_closed = False\<rparr>"

text \<open>A send inside a \<open>select\<close> with a \<open>default\<close> branch: it panics on a closed channel,
  appends when the buffer has room, and otherwise the \<open>default\<close> branch runs.\<close>

datatype send_result = Sent chan | WouldBlock | SendOnClosed

definition try_send :: "chan \<Rightarrow> ObjectID \<Rightarrow> send_result" where
  "try_send ch v =
     (if chan_closed ch then SendOnClosed
      else if length (chan_buf ch) < chan_cap ch then Sent (ch\<lparr>chan_buf := chan_buf ch @ [v]\<rparr>)
      else WouldBlock)"

text \<open>A receive \<open>v, ok := <-ch\<close>: the oldest buffered value; on an empty buffer
  \<open>ok = false\<close> once the channel is closed, and the receive blocks before that.\<close>

datatype recv_result = Received ObjectID chan | RecvClosed | RecvBlocks

definition try_recv :: "chan \<Rightarrow> recv_result" where
  "try_recv ch =
     (case chan_buf ch of
        v # rest \<Rightarrow> Received v (ch\<lparr>chan_buf := rest\<rparr>)
      | [] \<Rightarrow> if chan_closed ch then RecvClosed else RecvBlocks)"

definition close_chan :: "chan \<Rightarrow> chan go_outcome" where
  "close_chan ch =
     (if chan_closed ch then Panics ''close of closed channel''
      else Returns (ch\<lparr>chan_closed := True\<rparr>))"

subsection \<open>TaskWorker\<close>

text \<open>The worker's repository is the collection, passed to each method; what the
  methods print with \<open>log.Printf\<close> is returned as a list of lines.\<close>

record TaskWorker =
  autoCompleteMinutes :: int
  taskChannel :: chan

datatype log_line =
    LogStarting int
  | LogStopped
  | LogFindPendingError error
  | LogQueued ObjectID
  | LogChannelFull ObjectID
  | LogNotFoundSkipping ObjectID
  | LogFailedToAutoComplete ObjectID error
  | LogAutoCompleted ObjectID

definition NewTaskWorker :: "int \<Rightarrow> TaskWorker" where
  "NewTaskWorker minutes = \<lparr>autoCompleteMinutes = minutes, taskChannel = make_chan 100\<rparr>"

text \<open>\<open>time.Now().Add(-time.Duration(w.autoCompleteMinutes) * time.Minute)\<close>, where
  \<open>now\<close> is what \<open>time.Now()\<close> returns; the negation and the product are int64.\<close>

definition threshold :: "TaskWorker \<Rightarrow> Time \<Rightarrow> Time" where
  "threshold w now = Add now (wrap64 (wrap64 (- autoCompleteMinutes w) * Minute))"

text \<open>The loop of \<open>checkAndQueueTasks\<close> over the tasks found.\<close>

fun queue_tasks :: "chan \<Rightarrow> Task list \<Rightarrow> (chan \<times> log_line list) go_outcome" where
  "queue_tasks ch [] = Returns (ch, [])"
| "queue_tasks ch (task # tasks) =
     (case try_send ch (ID task) of
        SendOnClosed \<Rightarrow> Panics ''send on closed channel''
      | Sent ch' \<Rightarrow>
          (case queue_tasks ch' tasks of
             Panics p \<Rightarrow> Panics p
           | Returns (ch'', ls) \<Rightarrow> Returns (ch'', LogQueued (ID task) # ls))
      | WouldBlock \<Rightarrow>
          (case queue_tasks ch tasks of
             Panics p \<Rightarrow> Panics p
           | Returns (ch'', ls) \<Rightarrow> Returns (ch'', LogChannelFull (ID task) # ls)))"

definition checkAndQueueTasks ::
  "TaskWorker \<Rightarrow> Time \<Rightarrow> fault \<Rightarrow> fault \<Rightarrow> Task list \<Rightarrow> (TaskWorker \<times> log_line list) go_outcome" where
  "checkAndQueueTasks w now ff fa coll =
     (case FindPendingTasks ff fa coll (threshold w now) of
        Inl err \<Rightarrow> Returns (w, [LogFindPendingError err])
      | Inr tasks \<Rightarrow>
          (case queue_tasks (taskChannel w) tasks of
             Panics p \<Rightarrow> Panics p
           | Returns (ch, ls) \<Rightarrow> Returns (w\<lparr>taskChannel := ch\<rparr>, ls)))"

text \<open>\<open>autoCompleteTask\<close> has no result in Go: the model returns the collection it leaves
  and the lines it logs. \<open>now\<close> is the time read for the threshold, \<open>upd_now\<close> the time
  read inside \<open>UpdateStatus\<close>.\<close>

definition autoCompleteTask ::
  "TaskWorker \<Rightarrow> Time \<Rightarrow> Time \<Rightarrow> fault \<Rightarrow> fault \<Rightarrow> Task list \<Rightarrow> ObjectID \<Rightarrow>
     Task list \<times> log_line list" where
  "autoCompleteTask w now upd_now f_find f_upd coll taskID =
     (case FindByID f_find coll taskID of
        Inl err \<Rightarrow> (coll, [LogNotFoundSkipping taskID])
      | Inr task \<Rightarrow>
          if Status task = TaskStatusPending \<or> Status task = TaskStatusInProgress then
            if Before (CreatedAt task) (threshold w now) then
              (case UpdateStatus f_upd upd_now coll taskID TaskStatusCompleted of
                 (coll', Some err) \<Rightarrow> (coll', [LogFailedToAutoComplete taskID err])
               | (coll', None) \<Rightarrow> (coll', [LogAutoCompleted taskID]))
            else (coll, [])
          else (coll, []))"

subsection \<open>The goroutines\<close>

text \<open>
  \<open>Start\<close> launches three goroutines running \<open>processTasksFromChannel\<close> and then loops
  itself. The state of the subsystem is the collection, the worker with its channel,
  whether the context is cancelled, and which goroutines still run. One step is one
  iteration of one loop, labelled with the branch its \<open>select\<close> takes (any branch that
  can proceed may be taken) and with the times and driver faults met in that iteration.
\<close>

datatype goroutine = Running | Exited

record sys =
  tasks_coll :: "Task list"
  worker :: TaskWorker
  ctx_done :: bool
  scanner :: goroutine
  consumers :: "goroutine list"
  logged :: "log_line list"
  panicked :: bool

datatype start_select = Start_ctx_Done | Start_ticker Time fault fault

datatype worker_select = Worker_ctx_Done | Worker_taskChannel Time Time fault fault

definition Start :: "TaskWorker \<Rightarrow> Task list \<Rightarrow> sys" where
  "Start w coll =
     \<lparr>tasks_coll = coll, worker = w, ctx_done = False, scanner = Running,
      consumers = replicate 3 Running, logged = [LogStarting (autoCompleteMinutes w)],
      panicked = False\<rparr>"

text \<open>One iteration of the loop of \<open>Start\<close>; \<open>None\<close> when the branch cannot proceed.\<close>

definition Start_loop :: "start_select \<Rightarrow> sys \<Rightarrow> sys option" where
  "Start_loop sel s =
     (if scanner s \<noteq> Running then None
      else case sel of
        Start_ctx_Done \<Rightarrow>
          if ctx_done s then
            (case close_chan (taskChannel (worker s)) of
               Panics p \<Rightarrow> Some (s\<lparr>panicked := True\<rparr>)
             | Returns ch \<Rightarrow>
                 Some (s\<lparr>worker := (worker s)\<lparr>taskChannel := ch\<rparr>, scanner := Exited,
                         logged := logged s @ [LogStopped]\<rparr>))
          else None
      | Start_ticker now ff fa \<Rightarrow>
          (case checkAndQueueTasks (worker s) now ff fa (tasks_coll s) of
             Panics p \<Rightarrow> Some (s\<lparr>panicked := True\<rparr>)
           | Returns (w', ls) \<Rightarrow> Some (s\<lparr>worker := w', logged := logged s @ ls\<rparr>)))"

text \<open>One iteration of the loop of \<open>processTasksFromChannel\<close> in goroutine \<open>i\<close>.\<close>

definition processTasksFromChannel :: "nat \<Rightarrow> worker_select \<Rightarrow> sys \<Rightarrow> sys option" where
  "processTasksFromChannel i sel s =
     (if \<not> (i < length (consumers s) \<and> consumers s ! i = Running) then None
      else case sel of
        Worker_ctx_Done \<Rightarrow>
          if ctx_done s then Some (s\<lparr>consumers := (consumers s)[i := Exited]\<rparr>) else None
      | Worker_taskChannel now upd_now f_find f_upd \<Rightarrow>
          (case try_recv (taskChannel (worker s)) of
             RecvBlocks \<Rightarrow> None
           | RecvClosed \<Rightarrow> Some (s\<lparr>consumers := (consumers s)[i := Exited]\<rparr>)
           | Received taskID ch \<Rightarrow>
               (case autoCompleteTask (worker s) now upd_now f_find f_upd (tasks_coll s) taskID of
                  (coll', ls) \<Rightarrow>
                    Some (s\<lparr>tasks_coll := coll', worker := (worker s)\<lparr>taskChannel := ch\<rparr>,
                            logged := logged s @ ls\<rparr>))))"

text \<open>The events of the subsystem: \<open>main\<close> cancels the context, a request handler
  writes the collection, or one of the goroutines runs one iteration. A panic in a
  goroutine ends the process.\<close>

datatype event =
    Cancel
  | StoreWrite "Task list"
  | Scanner start_select
  | Consumer nat worker_select

definition step :: "event \<Rightarrow> sys \<Rightarrow> sys option" where
  "step ev s =
     (if panicked s then None
      else case ev of
        Cancel \<Rightarrow> Some (s\<lparr>ctx_done := True\<rparr>)
      | StoreWrite coll \<Rightarrow> Some (s\<lparr>tasks_coll := coll\<rparr>)
      | Scanner sel \<Rightarrow> Start_loop sel s
      | Consumer i sel \<Rightarrow> processTasksFromChannel i sel s)"

fun run :: "event list \<Rightarrow> sys \<Rightarrow> sys option" where
  "run [] s = Some s"
| "run (ev # evs) s = (case step ev s of None \<Rightarrow> None | Some s' \<Rightarrow> run evs s')"

text \<open>The invariant of the subsystem: nothing has panicked, the channel holds at most
  its capacity of 100, and it is open for as long as the scanner runs.\<close>

definition sys_inv :: "sys \<Rightarrow> bool" where
  "sys_inv s \<longleftrightarrow>
     \<not> panicked s \<and> chan_cap (taskChannel (worker s)) = 100 \<and>
     length (chan_buf (taskChannel (worker s))) \<le> chan_cap (taskChannel (worker s)) \<and>
     (scanner s = Running \<longrightarrow> \<not> chan_closed (taskChannel (worker s)))"

section \<open>Example data\<close>

text \<open>\<open>models.NewTask\<close>; the identifier stays the zero value until the store assigns one.\<close>

definition NewTask :: "ObjectID \<Rightarrow> string \<Rightarrow> string \<Rightarrow> TaskStatus \<Rightarrow> Time \<Rightarrow> Task" where
  "NewTask userID title description status now =
     \<lparr>ID = 0, UserID = userID, Title = title, Description = description, Status = status,
      CreatedAt = now, UpdatedAt = now\<rparr>"

text \<open>Two users and an administrator; a collection of four tasks, three of them owned by
  user 1, created at times 100, 200, 300 and 400.\<close>

definition ex_user :: User where
  "ex_user = \<lparr>User_ID = 1, Email = ''a@example.org'', Username = ''a'', Password = [],
              Role = UserRoleUser, User_CreatedAt = 0\<rparr>"

definition ex_other :: User where
  "ex_other = \<lparr>User_ID = 2, Email = ''b@example.org'', Username = ''b'', Password = [],
               Role = UserRoleUser, User_CreatedAt = 0\<rparr>"

definition ex_admin :: User where
  "ex_admin = \<lparr>User_ID = 3, Email = ''root@example.org'', Username = ''root'', Password = [],
               Role = UserRoleAdmin, User_CreatedAt = 0\<rparr>"

definition ex_t11 :: Task where
  "ex_t11 = (NewTask 1 ''t11'' [] TaskStatusPending 100)\<lparr>ID := 11\<rparr>"

definition ex_t12 :: Task where
  "ex_t12 = (NewTask 2 ''t12'' [] TaskStatusPending 200)\<lparr>ID := 12\<rparr>"

definition ex_t13 :: Task where
  "ex_t13 = (NewTask 1 ''t13'' [] TaskStatusCompleted 300)\<lparr>ID := 13\<rparr>"

definition ex_t14 :: Task where
  "ex_t14 = (NewTask 1 ''t14'' [] TaskStatusInProgress 400)\<lparr>ID := 14\<rparr>"

definition ex_coll :: "Task list" where
  "ex_coll = [ex_t11, ex_t12, ex_t13, ex_t14]"

text \<open>A worker with the default window of 10 minutes, and a reading of the clock 10
  minutes and 200 nanoseconds after the epoch: the threshold is 200.\<close>

definition ex_worker :: TaskWorker where
  "ex_worker = NewTaskWorker 10"

definition ex_now :: Time where
  "ex_now = 600000000200"

text \<open>A reading of the clock 10 minutes and one second after the epoch, for which the
  threshold is one second; and four stored tasks, created 5, 7, 6 and 9 milliseconds
  after the epoch, the third of them completed.\<close>

definition ex_tick :: Time where
  "ex_tick = 601000000000"

definition ex_s1 :: Task where
  "ex_s1 = (NewTask 1 ''s1'' [] TaskStatusPending 5000000)\<lparr>ID := 31\<rparr>"

definition ex_s2 :: Task where
  "ex_s2 = (NewTask 2 ''s2'' [] TaskStatusInProgress 7000000)\<lparr>ID := 32\<rparr>"

definition ex_s3 :: Task where
  "ex_s3 = (NewTask 1 ''s3'' [] TaskStatusCompleted 6000000)\<lparr>ID := 33\<rparr>"

definition ex_s4 :: Task where
  "ex_s4 = (NewTask 1 ''s4'' [] TaskStatusPending 9000000)\<lparr>ID := 34\<rparr>"

definition ex_stored :: "Task list" where
  "ex_stored = [ex_s4, ex_s3, ex_s2, ex_s1]"

text \<open>The subsystem just started on the example collection, with two identifiers
  already queued: one of no record, one of the first task.\<close>

definition ex_sys :: sys where
  "ex_sys = (Start ex_worker ex_coll)\<lparr>worker := ex_worker\<lparr>taskChannel := (taskChannel ex_worker)\<lparr>chan_buf := [99, 11]\<rparr>\<rparr>\<rparr>"

text \<open>A stand-in for \<open>strconv.Atoi\<close> on the few strings the examples use.\<close>

definition ex_atoi :: "string \<Rightarrow> int option" where
  "ex_atoi s =
     (if s = ''0'' then Some 0 else if s = ''2'' then Some 2 else if s = ''3'' then Some 3
      else if s = ''500'' then Some 500 else if s = ''-1'' then Some (- 1) else None)"

text \<open>Scenario E: 101 pending tasks of user 1, created 0 to 100 milliseconds after
  the epoch, all older than the threshold of one second; the state after the first scan,
  in which the channel holds the first 100 identifiers and the last task was skipped.\<close>

definition ex_many :: "Task list" where
  "ex_many =
     map (\<lambda>i. (NewTask 1 [] [] TaskStatusPending (int i * 1000000))\<lparr>ID := i\<rparr>) [0..<101]"

definition ex_scanned :: sys where
  "ex_scanned =
     (Start ex_worker ex_many)
       \<lparr>worker := ex_worker\<lparr>taskChannel := (taskChannel ex_worker)\<lparr>chan_buf := [0..<100]\<rparr>\<rparr>,
        logged := LogStarting 10 # map LogQueued [0..<100] @ [LogChannelFull 100]\<rparr>"

text \<open>A backlog of five pending tasks of user 1, all older than the threshold, and a
  shutdown: one scan queues the five identifiers, each of the three workers completes
  one task, the context is cancelled, the scanner closes the channel and returns, and
  each worker's \<open>select\<close> takes the cancellation branch.\<close>

definition ex_backlog :: "Task list" where
  "ex_backlog =
     map (\<lambda>i. (NewTask 1 [] [] TaskStatusPending (int i * 1000000))\<lparr>ID := i\<rparr>) [1..<6]"

definition ex_shutdown :: "event list" where
  "ex_shutdown =
     [Scanner (Start_ticker ex_tick None None),
      Consumer 0 (Worker_taskChannel ex_tick ex_tick None None),
      Consumer 1 (Worker_taskChannel ex_tick ex_tick None None),
      Consumer 2 (Worker_taskChannel ex_tick ex_tick None None),
      Cancel,
      Scanner Start_ctx_Done,
      Consumer 0 Worker_ctx_Done,
      Consumer 1 Worker_ctx_Done,
      Consumer 2 Worker_ctx_Done]"

text \<open>The example subsystem after \<open>main\<close> has cancelled the context, and after the
  scanner has then closed the channel and returned; and the state with two queued
  identifiers, its channel closed.\<close>

definition ex_cancelled :: sys where
  "ex_cancelled = (Start ex_worker ex_coll)\<lparr>ctx_done := True\<rparr>"

definition ex_stopped :: sys where
  "ex_stopped =
     ex_cancelled\<lparr>worker := ex_worker\<lparr>taskChannel := (taskChannel ex_worker)\<lparr>chan_closed := True\<rparr>\<rparr>,
                  scanner := Exited, logged := logged ex_cancelled @ [LogStopped]\<rparr>"

definition ex_sys_closed :: sys where
  "ex_sys_closed =
     ex_sys\<lparr>worker := (worker ex_sys)\<lparr>taskChannel := (taskChannel (worker ex_sys))\<lparr>chan_closed := True\<rparr>\<rparr>,
            ctx_done := True, scanner := Exited\<rparr>"

lemmas ex_defs = ex_coll_def ex_t11_def ex_t12_def ex_t13_def ex_t14_def NewTask_def
  ex_worker_def ex_now_def NewTaskWorker_def make_chan_def
  TaskStatusPending_def TaskStatusInProgress_def TaskStatusCompleted_def

section \<open>Arithmetic of the Go operators\<close>

lemma go_quo_nonneg: "0 \<le> a \<Longrightarrow> 0 < b \<Longrightarrow> go_quo a b = a div b"
  by (cases "a = 0") (simp_all add: go_quo_def)

lemma go_rem_nonneg: "0 \<le> a \<Longrightarrow> 0 < b \<Longrightarrow> go_rem a b = a mod b"
  by (simp add: go_rem_def go_quo_nonneg minus_div_mult_eq_mod)

lemma ceiling_quo_rem:
  assumes "0 \<le> a" and "0 < b"
  shows "go_quo a b + (if go_rem a b > 0 then 1 else 0) = \<lceil>real_of_int a / real_of_int b\<rceil>"
proof -
  have "\<lceil>real_of_int a / real_of_int b\<rceil> = - (- a div b)"
    by (rule ceiling_divide_eq_div)
  also have "\<dots> = a div b + (if a mod b > 0 then 1 else 0)"
    using assms by (auto simp: zdiv_zminus1_eq_if less_le dest: pos_mod_sign[of b a])
  finally show ?thesis using assms by (simp add: go_quo_nonneg go_rem_nonneg)
qed

lemma wrap64_id: "- (2 ^ 63) \<le> x \<Longrightarrow> x < 2 ^ 63 \<Longrightarrow> wrap64 x = x"
  by (simp add: wrap64_def)

section \<open>Listing: the number of pages\<close>

lemma find_page_count:
  "find_page fc ff fa coll q flt = Inr (ts, n) \<Longrightarrow> n = int (length (filter q coll))"
  by (auto simp: find_page_def CountDocuments_def Let_def
           split: option.splits sum.splits if_splits)

lemma ListTasks_count_nonneg:
  assumes "ListTasks fc ff fa coll user flt = Returns (Inr resp)"
  shows "0 \<le> TotalCount resp"
proof (cases "Role user = UserRoleAdmin")
  case True
  with assms obtain ts n where "FindAll fc ff fa coll flt = Inr (ts, n)" and "TotalCount resp = n"
    by (auto simp: ListTasks_def Let_def split: sum.splits if_splits prod.splits)
  then show ?thesis by (auto simp: FindAll_def dest: find_page_count)
next
  case False
  with assms obtain ts n where
    "FindByUserID fc ff fa coll (User_ID user) flt = Inr (ts, n)" and "TotalCount resp = n"
    by (auto simp: ListTasks_def Let_def split: sum.splits if_splits prod.splits)
  then show ?thesis by (auto simp: FindByUserID_def dest: find_page_count)
qed

lemma ListTasks_pages_formula:
  assumes "ListTasks fc ff fa coll user flt = Returns (Inr resp)"
  shows "Limit resp = Filter_Limit flt \<and> Filter_Limit flt \<noteq> 0 \<and>
         TotalPages resp = go_quo (TotalCount resp) (Filter_Limit flt) +
           (if go_rem (TotalCount resp) (Filter_Limit flt) > 0 then 1 else 0)"
  using assms
  by (auto simp: ListTasks_def Let_def split: sum.splits if_splits prod.splits)

text \<open>
  Claim C4. Whenever the limit of the filter is positive and the listing returns a
  response, the reported total number of pages is the ceiling of the total count over
  the limit; it is the truncated quotient, plus one exactly when the remainder is
  positive (integers only); and it is 0 exactly when the total count is 0.
\<close>

theorem ListTasks_totalPages_ceiling:
  assumes "0 < Filter_Limit flt"
    and "ListTasks fc ff fa coll user flt = Returns (Inr resp)"
  shows "TotalPages resp = \<lceil>real_of_int (TotalCount resp) / real_of_int (Filter_Limit flt)\<rceil> \<and>
         TotalPages resp = go_quo (TotalCount resp) (Filter_Limit flt) +
           (if go_rem (TotalCount resp) (Filter_Limit flt) > 0 then 1 else 0) \<and>
         (TotalCount resp = 0 \<longrightarrow> TotalPages resp = 0)"
proof -
  have nn: "0 \<le> TotalCount resp"
    using assms(2) by (rule ListTasks_count_nonneg)
  have formula: "TotalPages resp = go_quo (TotalCount resp) (Filter_Limit flt) +
      (if go_rem (TotalCount resp) (Filter_Limit flt) > 0 then 1 else 0)"
    using ListTasks_pages_formula [OF assms(2)] by simp
  have ceil: "TotalPages resp = \<lceil>real_of_int (TotalCount resp) / real_of_int (Filter_Limit flt)\<rceil>"
    using ceiling_quo_rem [OF nn assms(1)] formula by simp
  have zero: "TotalCount resp = 0 \<longrightarrow> TotalPages resp = 0"
    using ceil by simp
  from ceil formula zero show ?thesis by simp
qed

theorem ListTasks_totalPages_ceiling_witness:
  "0 < Filter_Limit \<lparr>Filter_Status = None, Filter_Page = 2, Filter_Limit = 2\<rparr> \<and>
   ListTasks None None None ex_coll ex_user \<lparr>Filter_Status = None, Filter_Page = 2, Filter_Limit = 2\<rparr> =
     Returns (Inr \<lparr>Tasks = [ex_t11],
                   Page = 2, Limit = 2, TotalCount = 3, TotalPages = 2\<rparr>) \<and>
   (2::int) = \<lceil>real_of_int 3 / real_of_int 2\<rceil> \<and>
   0 < Filter_Limit \<lparr>Filter_Status = Some TaskStatusCompleted, Filter_Page = 1, Filter_Limit = 5\<rparr> \<and>
   ListTasks None None None ex_coll ex_other
       \<lparr>Filter_Status = Some TaskStatusCompleted, Filter_Page = 1, Filter_Limit = 5\<rparr> =
     Returns (Inr \<lparr>Tasks = [], Page = 1, Limit = 5, TotalCount = 0, TotalPages = 0\<rparr>)"
proof -
  let ?f = "\<lparr>Filter_Status = None, Filter_Page = 2, Filter_Limit = 2\<rparr>"
  let ?g = "\<lparr>Filter_Status = Some TaskStatusCompleted, Filter_Page = 1, Filter_Limit = 5\<rparr>"
  have f_pos: "0 < Filter_Limit ?f" by simp
  have f_ret: "ListTasks None None None ex_coll ex_user ?f =
      Returns (Inr \<lparr>Tasks = [ex_t11],
                    Page = 2, Limit = 2, TotalCount = 3, TotalPages = 2\<rparr>)"
    by code_simp
  have g_pos: "0 < Filter_Limit ?g" by simp
  have g_ret: "ListTasks None None None ex_coll ex_other ?g =
      Returns (Inr \<lparr>Tasks = [], Page = 1, Limit = 5, TotalCount = 0, TotalPages = 0\<rparr>)"
    by code_simp
  show ?thesis
    using ListTasks_totalPages_ceiling [OF f_pos f_ret]
      ListTasks_totalPages_ceiling [OF g_pos g_ret] f_ret g_ret
    by simp
qed

section \<open>The repository: lookup and status update\<close>

lemma FindByID_None:
  "FindByID None coll tid =
     (case find (\<lambda>t. ID t = tid) coll of None \<Rightarrow> Inl ''task not found'' | Some t \<Rightarrow> Inr t)"
  by (simp add: FindByID_def FindOne_def split: option.splits)

lemma FindByID_fault: "FindByID (Some e) coll tid = Inl (''failed to find task: '' @ e)"
  by (simp add: FindByID_def FindOne_def)

lemma update_first_no_match: "find q coll = None \<Longrightarrow> update_first q u coll = (coll, 0)"
  by (induction coll) (auto split: if_splits)

lemma update_first_count:
  "snd (update_first q u coll) = (case find q coll of None \<Rightarrow> 0 | Some t \<Rightarrow> 1)"
  by (induction coll) (auto split: if_splits prod.splits)

lemma update_first_find_same:
  "find q coll = Some t \<Longrightarrow> q (u t) \<Longrightarrow> find q (fst (update_first q u coll)) = Some (u t)"
  by (induction coll) (auto split: if_splits prod.splits)

lemma update_first_map:
  "(\<And>t. q t \<Longrightarrow> g (u t) = g t) \<Longrightarrow> map g (fst (update_first q u coll)) = map g coll"
  by (induction coll) (auto split: if_splits prod.splits)

lemma UpdateStatus_None:
  "UpdateStatus None now coll tid st =
     (case find (\<lambda>t. ID t = tid) coll of
        None \<Rightarrow> (coll, Some ''task not found'')
      | Some t \<Rightarrow> (fst (update_first (\<lambda>t. ID t = tid) (\<lambda>t. t\<lparr>Status := st, UpdatedAt := now\<rparr>) coll), None))"
proof -
  let ?r = "update_first (\<lambda>t. ID t = tid) (\<lambda>t. t\<lparr>Status := st, UpdatedAt := now\<rparr>) coll"
  have n: "snd ?r = (case find (\<lambda>t. ID t = tid) coll of None \<Rightarrow> 0 | Some t \<Rightarrow> 1)"
    by (rule update_first_count)
  show ?thesis
  proof (cases "find (\<lambda>t. ID t = tid) coll")
    case None
    then show ?thesis
      by (simp add: UpdateStatus_def UpdateOne_def update_first_no_match)
  next
    case (Some t)
    with n have "snd ?r = 1" by simp
    then show ?thesis using Some
      by (cases ?r) (simp add: UpdateStatus_def UpdateOne_def)
  qed
qed

lemma UpdateStatus_fault:
  "UpdateStatus (Some e) now coll tid st = (coll, Some (''failed to update task status: '' @ e))"
  by (simp add: UpdateStatus_def UpdateOne_def)

lemma fst_update_first_Cons:
  "fst (update_first q u (d # ds)) = (if q d then u d # ds else d # fst (update_first q u ds))"
  by (simp split: prod.splits)

lemma update_first_split:
  "find q coll = Some t \<Longrightarrow>
     \<exists>pre post. coll = pre @ t # post \<and> (\<forall>d\<in>set pre. \<not> q d) \<and>
       fst (update_first q u coll) = pre @ u t # post"
proof (induction coll)
  case Nil
  then show ?case by simp
next
  case (Cons d ds)
  show ?case
  proof (cases "q d")
    case True
    with Cons.prems have "d = t" by simp
    with True have "d # ds = [] @ t # ds \<and> (\<forall>x\<in>set []. \<not> q x) \<and>
        fst (update_first q u (d # ds)) = [] @ u t # ds"
      by simp
    then show ?thesis by blast
  next
    case False
    with Cons.prems have "find q ds = Some t" by simp
    from Cons.IH [OF this] obtain pre post where
      "ds = pre @ t # post" "\<forall>x\<in>set pre. \<not> q x" "fst (update_first q u ds) = pre @ u t # post"
      by blast
    with False have "d # ds = (d # pre) @ t # post \<and> (\<forall>x\<in>set (d # pre). \<not> q x) \<and>
        fst (update_first q u (d # ds)) = (d # pre) @ u t # post"
      by (simp only: fst_update_first_Cons) simp
    then show ?thesis by blast
  qed
qed

text \<open>
  Claim C8. \<open>UpdateStatus\<close> is one function of the collection (the Go method holds the
  exclusive lock throughout). When the driver call goes through: if no document has the
  identifier, the result is the error \<open>task not found\<close> and the collection as it was;
  if one has, there is no error and the first such document, and no other, now carries
  the new status and the time read as its \<open>updated_at\<close>. Whenever an error is
  returned the collection is unchanged.
\<close>

theorem UpdateStatus_sets_status_or_not_found:
  "(find (\<lambda>t. ID t = tid) coll = None \<longrightarrow>
      UpdateStatus None now coll tid status = (coll, Some ''task not found'')) \<and>
   (find (\<lambda>t. ID t = tid) coll = Some task \<longrightarrow>
      snd (UpdateStatus None now coll tid status) = None \<and>
      find (\<lambda>t. ID t = tid) (fst (UpdateStatus None now coll tid status)) =
        Some (task\<lparr>Status := status, UpdatedAt := now\<rparr>) \<and>
      (\<exists>pre post. coll = pre @ task # post \<and> (\<forall>d\<in>set pre. ID d \<noteq> tid) \<and>
         fst (UpdateStatus None now coll tid status) =
           pre @ task\<lparr>Status := status, UpdatedAt := now\<rparr> # post)) \<and>
   (snd (UpdateStatus f now coll tid status) \<noteq> None \<longrightarrow>
      fst (UpdateStatus f now coll tid status) = coll)"
proof (intro conjI impI)
  assume "find (\<lambda>t. ID t = tid) coll = None"
  then show "UpdateStatus None now coll tid status = (coll, Some ''task not found'')"
    by (simp add: UpdateStatus_None)
next
  assume found: "find (\<lambda>t. ID t = tid) coll = Some task"
  then show "snd (UpdateStatus None now coll tid status) = None"
    by (simp add: UpdateStatus_None)
  from found have "ID task = tid"
    by (auto simp: find_Some_iff)
  with found show "find (\<lambda>t. ID t = tid) (fst (UpdateStatus None now coll tid status)) =
      Some (task\<lparr>Status := status, UpdatedAt := now\<rparr>)"
    by (simp add: UpdateStatus_None update_first_find_same)
  from update_first_split [OF found, of "\<lambda>t. t\<lparr>Status := status, UpdatedAt := now\<rparr>"] found
  show "\<exists>pre post. coll = pre @ task # post \<and> (\<forall>d\<in>set pre. ID d \<noteq> tid) \<and>
      fst (UpdateStatus None now coll tid status) =
        pre @ task\<lparr>Status := status, UpdatedAt := now\<rparr> # post"
    by (simp add: UpdateStatus_None)
next
  assume err: "snd (UpdateStatus f now coll tid status) \<noteq> None"
  show "fst (UpdateStatus f now coll tid status) = coll"
  proof (cases f)
    case (Some e)
    then show ?thesis by (simp add: UpdateStatus_fault)
  next
    case None
    with err show ?thesis
      by (cases "find (\<lambda>t. ID t = tid) coll") (simp_all add: UpdateStatus_None)
  qed
qed

theorem UpdateStatus_sets_status_or_not_found_witness:
  "find (\<lambda>t. ID t = 99) ex_coll = None \<and>
   UpdateStatus None 500 ex_coll 99 TaskStatusCompleted = (ex_coll, Some ''task not found'') \<and>
   find (\<lambda>t. ID t = 12) ex_coll = Some ex_t12 \<and>
   UpdateStatus None 500 ex_coll 12 TaskStatusCompleted =
     ([ex_t11, ex_t12\<lparr>Status := TaskStatusCompleted, UpdatedAt := 500\<rparr>, ex_t13, ex_t14], None) \<and>
   snd (UpdateStatus (Some ''context deadline exceeded'') 500 ex_coll 12 TaskStatusCompleted) \<noteq> None \<and>
   fst (UpdateStatus (Some ''context deadline exceeded'') 500 ex_coll 12 TaskStatusCompleted) = ex_coll"
proof -
  have a: "find (\<lambda>t. ID t = 99) ex_coll = None"
    by (simp add: ex_defs)
  have b: "find (\<lambda>t. ID t = 12) ex_coll = Some ex_t12"
    by (simp add: ex_defs)
  have c: "UpdateStatus None 500 ex_coll 12 TaskStatusCompleted =
     ([ex_t11, ex_t12\<lparr>Status := TaskStatusCompleted, UpdatedAt := 500\<rparr>, ex_t13, ex_t14], None)"
    by (simp add: UpdateStatus_def UpdateOne_def ex_defs)
  have d: "snd (UpdateStatus (Some ''context deadline exceeded'') 500 ex_coll 12 TaskStatusCompleted) \<noteq> None"
    by (simp add: UpdateStatus_def UpdateOne_def)
  show ?thesis
    using UpdateStatus_sets_status_or_not_found [where tid = 99 and coll = ex_coll and now = 500
        and status = TaskStatusCompleted and task = ex_t12 and f = None]
      UpdateStatus_sets_status_or_not_found [where tid = 12 and coll = ex_coll and now = 500
        and status = TaskStatusCompleted and task = ex_t12
        and f = "Some ''context deadline exceeded''"] a b c d
    by simp
qed

section \<open>The worker: re-validation before the update\<close>

lemma threshold_exact:
  assumes "\<bar>autoCompleteMinutes w\<bar> \<le> 153722867"
  shows "threshold w now = now - autoCompleteMinutes w * 60000000000"
proof -
  have 1: "wrap64 (- autoCompleteMinutes w) = - autoCompleteMinutes w"
    using assms by (intro wrap64_id) auto
  have 2: "wrap64 (- (autoCompleteMinutes w * 60000000000)) = - (autoCompleteMinutes w * 60000000000)"
    using assms by (intro wrap64_id) auto
  show ?thesis by (simp add: threshold_def Add_def Minute_def 1 2)
qed

lemma autoCompleteTask_eligible:
  assumes "find (\<lambda>t. ID t = taskID) coll = Some task"
    and "Status task = TaskStatusPending \<or> Status task = TaskStatusInProgress"
    and "CreatedAt task < threshold w now"
  shows "autoCompleteTask w now upd_now None f_upd coll taskID =
       (case UpdateStatus f_upd upd_now coll taskID TaskStatusCompleted of
          (coll', Some err) \<Rightarrow> (coll', [LogFailedToAutoComplete taskID err])
        | (coll', None) \<Rightarrow> (coll', [LogAutoCompleted taskID]))"
  using assms by (simp add: autoCompleteTask_def FindByID_None Before_def)

lemma autoCompleteTask_not_eligible:
  assumes "\<not> (f_find = None \<and> (\<exists>t. find (\<lambda>t. ID t = taskID) coll = Some t \<and>
            (Status t = TaskStatusPending \<or> Status t = TaskStatusInProgress) \<and>
            CreatedAt t < threshold w now))"
  shows "autoCompleteTask w now upd_now f_find f_upd coll taskID = (coll, []) \<or>
         autoCompleteTask w now upd_now f_find f_upd coll taskID = (coll, [LogNotFoundSkipping taskID])"
proof (cases f_find)
  case (Some e)
  then show ?thesis by (simp add: autoCompleteTask_def FindByID_fault)
next
  case None
  show ?thesis
  proof (cases "find (\<lambda>t. ID t = taskID) coll")
    case None
    with \<open>f_find = None\<close> show ?thesis by (simp add: autoCompleteTask_def FindByID_None)
  next
    case (Some t)
    with \<open>f_find = None\<close> assms
    have "\<not> ((Status t = TaskStatusPending \<or> Status t = TaskStatusInProgress) \<and>
            CreatedAt t < threshold w now)"
      by simp
    with Some \<open>f_find = None\<close> show ?thesis
      by (auto simp: autoCompleteTask_def FindByID_None Before_def)
  qed
qed

text \<open>
  Claim C1. For the identifier a worker has dequeued: when the re-fetch returns the
  record, its status is \<open>pending\<close> or \<open>in_progress\<close> and its creation time is
  strictly before the threshold recomputed from the clock, \<open>autoCompleteTask\<close> is the
  call of \<open>UpdateStatus\<close> with \<open>completed\<close>, which (the driver going through)
  leaves the record completed with a fresh \<open>updated_at\<close>. In every other case the
  collection is returned as it was and nothing but the skip line is logged; for a
  record already \<open>completed\<close> nothing at all is logged. The threshold is the clock
  minus the window whenever the window fits in an int64 of nanoseconds.
\<close>

theorem autoCompleteTask_completes_or_noop:
  "(f_find = None \<and> find (\<lambda>t. ID t = taskID) coll = Some task \<and>
    (Status task = TaskStatusPending \<or> Status task = TaskStatusInProgress) \<and>
    CreatedAt task < threshold w now \<longrightarrow>
      autoCompleteTask w now upd_now f_find f_upd coll taskID =
        (case UpdateStatus f_upd upd_now coll taskID TaskStatusCompleted of
           (coll', Some err) \<Rightarrow> (coll', [LogFailedToAutoComplete taskID err])
         | (coll', None) \<Rightarrow> (coll', [LogAutoCompleted taskID])) \<and>
      (f_upd = None \<longrightarrow>
         snd (autoCompleteTask w now upd_now f_find f_upd coll taskID) = [LogAutoCompleted taskID] \<and>
         find (\<lambda>t. ID t = taskID) (fst (autoCompleteTask w now upd_now f_find f_upd coll taskID)) =
           Some (task\<lparr>Status := TaskStatusCompleted, UpdatedAt := upd_now\<rparr>))) \<and>
   (\<not> (f_find = None \<and> (\<exists>t. find (\<lambda>t. ID t = taskID) coll = Some t \<and>
          (Status t = TaskStatusPending \<or> Status t = TaskStatusInProgress) \<and>
          CreatedAt t < threshold w now)) \<longrightarrow>
      autoCompleteTask w now upd_now f_find f_upd coll taskID = (coll, []) \<or>
      autoCompleteTask w now upd_now f_find f_upd coll taskID = (coll, [LogNotFoundSkipping taskID])) \<and>
   (f_find = None \<and> find (\<lambda>t. ID t = taskID) coll = Some task \<and>
    Status task = TaskStatusCompleted \<longrightarrow>
      autoCompleteTask w now upd_now f_find f_upd coll taskID = (coll, [])) \<and>
   (\<bar>autoCompleteMinutes w\<bar> \<le> 153722867 \<longrightarrow>
      threshold w now = now - autoCompleteMinutes w * 60000000000)"
proof (intro conjI impI)
  assume h: "f_find = None \<and> find (\<lambda>t. ID t = taskID) coll = Some task \<and>
    (Status task = TaskStatusPending \<or> Status task = TaskStatusInProgress) \<and>
    CreatedAt task < threshold w now"
  then show eq: "autoCompleteTask w now upd_now f_find f_upd coll taskID =
        (case UpdateStatus f_upd upd_now coll taskID TaskStatusCompleted of
           (coll', Some err) \<Rightarrow> (coll', [LogFailedToAutoComplete taskID err])
         | (coll', None) \<Rightarrow> (coll', [LogAutoCompleted taskID]))"
    using autoCompleteTask_eligible [of taskID coll task w now upd_now f_upd] by simp
  assume "f_upd = None"
  with eq h show "snd (autoCompleteTask w now upd_now f_find f_upd coll taskID) = [LogAutoCompleted taskID]"
    by (simp add: UpdateStatus_None)
  from h have "ID task = taskID" by (auto simp: find_Some_iff)
  with eq h \<open>f_upd = None\<close>
  show "find (\<lambda>t. ID t = taskID) (fst (autoCompleteTask w now upd_now f_find f_upd coll taskID)) =
           Some (task\<lparr>Status := TaskStatusCompleted, UpdatedAt := upd_now\<rparr>)"
    by (simp add: UpdateStatus_None update_first_find_same)
next
  assume "\<not> (f_find = None \<and> (\<exists>t. find (\<lambda>t. ID t = taskID) coll = Some t \<and>
          (Status t = TaskStatusPending \<or> Status t = TaskStatusInProgress) \<and>
          CreatedAt t < threshold w now))"
  then show "autoCompleteTask w now upd_now f_find f_upd coll taskID = (coll, []) \<or>
      autoCompleteTask w now upd_now f_find f_upd coll taskID = (coll, [LogNotFoundSkipping taskID])"
    by (rule autoCompleteTask_not_eligible)
next
  assume "f_find = None \<and> find (\<lambda>t. ID t = taskID) coll = Some task \<and>
    Status task = TaskStatusCompleted"
  then show "autoCompleteTask w now upd_now f_find f_upd coll taskID = (coll, [])"
    by (simp add: autoCompleteTask_def FindByID_None TaskStatusCompleted_def
        TaskStatusPending_def TaskStatusInProgress_def)
next
  assume "\<bar>autoCompleteMinutes w\<bar> \<le> 153722867"
  then show "threshold w now = now - autoCompleteMinutes w * 60000000000"
    by (rule threshold_exact)
qed

theorem autoCompleteTask_completes_or_noop_witness:
  "find (\<lambda>t. ID t = 11) ex_coll = Some ex_t11 \<and> Status ex_t11 = TaskStatusPending \<and>
   threshold ex_worker ex_now = 200 \<and> CreatedAt ex_t11 < threshold ex_worker ex_now \<and>
   autoCompleteTask ex_worker ex_now 600000000300 None None ex_coll 11 =
     ([ex_t11\<lparr>Status := TaskStatusCompleted, UpdatedAt := 600000000300\<rparr>, ex_t12, ex_t13, ex_t14],
      [LogAutoCompleted 11]) \<and>
   find (\<lambda>t. ID t = 12) ex_coll = Some ex_t12 \<and> CreatedAt ex_t12 = 200 \<and>
   autoCompleteTask ex_worker ex_now 600000000300 None None ex_coll 12 = (ex_coll, []) \<and>
   find (\<lambda>t. ID t = 13) ex_coll = Some ex_t13 \<and> Status ex_t13 = TaskStatusCompleted \<and>
   autoCompleteTask ex_worker ex_now 600000000300 None None ex_coll 13 = (ex_coll, []) \<and>
   \<bar>autoCompleteMinutes ex_worker\<bar> \<le> 153722867"
proof -
  have thr: "threshold ex_worker ex_now = 200"
    by (simp add: threshold_def Add_def Minute_def wrap64_def ex_defs)
  have f11: "find (\<lambda>t. ID t = 11) ex_coll = Some ex_t11" by (simp add: ex_defs)
  have f12: "find (\<lambda>t. ID t = 12) ex_coll = Some ex_t12" by (simp add: ex_defs)
  have f13: "find (\<lambda>t. ID t = 13) ex_coll = Some ex_t13" by (simp add: ex_defs)
  have s11: "Status ex_t11 = TaskStatusPending" "CreatedAt ex_t11 = 100" by (simp_all add: ex_defs)
  have s12: "CreatedAt ex_t12 = 200" by (simp add: ex_defs)
  have s13: "Status ex_t13 = TaskStatusCompleted" by (simp add: ex_defs)
  have u11: "UpdateStatus None 600000000300 ex_coll 11 TaskStatusCompleted =
     ([ex_t11\<lparr>Status := TaskStatusCompleted, UpdatedAt := 600000000300\<rparr>, ex_t12, ex_t13, ex_t14], None)"
    by (simp add: UpdateStatus_def UpdateOne_def ex_defs)
  have m: "\<bar>autoCompleteMinutes ex_worker\<bar> \<le> 153722867" by (simp add: ex_defs)
  have ne12: "\<not> (\<exists>t. find (\<lambda>t. ID t = 12) ex_coll = Some t \<and>
          (Status t = TaskStatusPending \<or> Status t = TaskStatusInProgress) \<and>
          CreatedAt t < threshold ex_worker ex_now)"
    using f12 s12 thr by simp
  have a12: "autoCompleteTask ex_worker ex_now 600000000300 None None ex_coll 12 \<noteq>
      (ex_coll, [LogNotFoundSkipping 12])"
    by (simp add: autoCompleteTask_def FindByID_None f12 s12 thr Before_def)
  show ?thesis
    using autoCompleteTask_completes_or_noop [where f_find = None and taskID = 11 and coll = ex_coll
        and task = ex_t11 and w = ex_worker and now = ex_now and upd_now = 600000000300 and f_upd = None]
      autoCompleteTask_completes_or_noop [where f_find = None and taskID = 12 and coll = ex_coll
        and task = ex_t12 and w = ex_worker and now = ex_now and upd_now = 600000000300 and f_upd = None]
      autoCompleteTask_completes_or_noop [where f_find = None and taskID = 13 and coll = ex_coll
        and task = ex_t13 and w = ex_worker and now = ex_now and upd_now = 600000000300 and f_upd = None]
      thr f11 f12 f13 s11 s12 s13 u11 m ne12 a12
    by simp
qed

text \<open>
  Claim C2. When no record has the dequeued identifier and the driver call goes
  through, \<open>FindByID\<close> answers \<open>task not found\<close>, and \<open>autoCompleteTask\<close> returns
  the collection as it was, logging only that it skips. In the loop of
  \<open>processTasksFromChannel\<close> this iteration changes nothing but the channel (the
  identifier is taken off) and the log: the collection is the same, the goroutine keeps
  running and nothing has panicked, so no caller sees an error.
\<close>

theorem autoCompleteTask_not_found_is_silent_skip:
  assumes "find (\<lambda>t. ID t = taskID) coll = None"
  shows "FindByID None coll taskID = Inl ''task not found'' \<and>
         autoCompleteTask w now upd_now None f_upd coll taskID =
           (coll, [LogNotFoundSkipping taskID]) \<and>
         (i < length (consumers s) \<and> consumers s ! i = Running \<and> \<not> panicked s \<and>
          tasks_coll s = coll \<and> chan_buf (taskChannel (worker s)) = taskID # rest \<longrightarrow>
            step (Consumer i (Worker_taskChannel now upd_now None f_upd)) s =
              Some (s\<lparr>worker := (worker s)\<lparr>taskChannel := (taskChannel (worker s))\<lparr>chan_buf := rest\<rparr>\<rparr>,
                      logged := logged s @ [LogNotFoundSkipping taskID]\<rparr>))"
proof (intro conjI impI)
  show nf: "FindByID None coll taskID = Inl ''task not found''"
    using assms by (simp add: FindByID_None)
  show skip: "autoCompleteTask w now upd_now None f_upd coll taskID =
      (coll, [LogNotFoundSkipping taskID])" for w
    using nf by (simp add: autoCompleteTask_def)
  assume st: "i < length (consumers s) \<and> consumers s ! i = Running \<and> \<not> panicked s \<and>
      tasks_coll s = coll \<and> chan_buf (taskChannel (worker s)) = taskID # rest"
  then have recv: "try_recv (taskChannel (worker s)) =
      Received taskID ((taskChannel (worker s))\<lparr>chan_buf := rest\<rparr>)"
    by (simp add: try_recv_def)
  from st have "autoCompleteTask (worker s) now upd_now None f_upd (tasks_coll s) taskID =
      (tasks_coll s, [LogNotFoundSkipping taskID])"
    using skip [of "worker s"] by simp
  with st recv
  show "step (Consumer i (Worker_taskChannel now upd_now None f_upd)) s =
      Some (s\<lparr>worker := (worker s)\<lparr>taskChannel := (taskChannel (worker s))\<lparr>chan_buf := rest\<rparr>\<rparr>,
              logged := logged s @ [LogNotFoundSkipping taskID]\<rparr>)"
    by (simp add: step_def processTasksFromChannel_def)
qed

theorem autoCompleteTask_not_found_is_silent_skip_witness:
  "find (\<lambda>t. ID t = 99) ex_coll = None \<and>
   autoCompleteTask ex_worker ex_now ex_now None None ex_coll 99 = (ex_coll, [LogNotFoundSkipping 99]) \<and>
   (1::nat) < length (consumers ex_sys) \<and> consumers ex_sys ! 1 = Running \<and> \<not> panicked ex_sys \<and>
   tasks_coll ex_sys = ex_coll \<and> chan_buf (taskChannel (worker ex_sys)) = [99, 11] \<and>
   step (Consumer 1 (Worker_taskChannel ex_now ex_now None None)) ex_sys =
     Some (ex_sys\<lparr>worker := (worker ex_sys)\<lparr>taskChannel := (taskChannel (worker ex_sys))\<lparr>chan_buf := [11]\<rparr>\<rparr>,
                 logged := logged ex_sys @ [LogNotFoundSkipping 99]\<rparr>)"
proof -
  have a: "find (\<lambda>t. ID t = 99) ex_coll = None"
    by (simp add: ex_defs)
  have b: "(1::nat) < length (consumers ex_sys) \<and> consumers ex_sys ! 1 = Running \<and> \<not> panicked ex_sys \<and>
      tasks_coll ex_sys = ex_coll \<and> chan_buf (taskChannel (worker ex_sys)) = [99, 11]"
    by (simp add: ex_sys_def Start_def numeral_3_eq_3)
  show ?thesis
    using autoCompleteTask_not_found_is_silent_skip [OF a, where w = ex_worker and now = ex_now
        and upd_now = ex_now and f_upd = None and i = 1 and s = ex_sys and rest = "[11]"] a b
    by simp
qed

section \<open>The service: who may read and delete a task\<close>

lemma delete_first_count:
  "snd (delete_first q coll) = (case find q coll of None \<Rightarrow> 0 | Some t \<Rightarrow> 1)"
  by (induction coll) (auto split: if_splits prod.splits)

lemma delete_first_no_match: "find q coll = None \<Longrightarrow> delete_first q coll = (coll, 0)"
  by (induction coll) (auto split: if_splits)

lemma fst_delete_first_Cons:
  "fst (delete_first q (d # ds)) = (if q d then ds else d # fst (delete_first q ds))"
  by (simp split: prod.splits)

lemma delete_first_split:
  "find q coll = Some t \<Longrightarrow>
     \<exists>pre post. coll = pre @ t # post \<and> (\<forall>d\<in>set pre. \<not> q d) \<and>
       fst (delete_first q coll) = pre @ post"
proof (induction coll)
  case Nil
  then show ?case by simp
next
  case (Cons d ds)
  show ?case
  proof (cases "q d")
    case True
    with Cons.prems have "d = t" by simp
    with True have "d # ds = [] @ t # ds \<and> (\<forall>x\<in>set []. \<not> q x) \<and>
        fst (delete_first q (d # ds)) = [] @ ds"
      by simp
    then show ?thesis by blast
  next
    case False
    with Cons.prems have "find q ds = Some t" by simp
    from Cons.IH [OF this] obtain pre post where
      "ds = pre @ t # post" "\<forall>x\<in>set pre. \<not> q x" "fst (delete_first q ds) = pre @ post"
      by blast
    with False have "d # ds = (d # pre) @ t # post \<and> (\<forall>x\<in>set (d # pre). \<not> q x) \<and>
        fst (delete_first q (d # ds)) = (d # pre) @ post"
      by (simp only: fst_delete_first_Cons) simp
    then show ?thesis by blast
  qed
qed

lemma Delete_None:
  "Delete None coll tid =
     (case find (\<lambda>t. ID t = tid) coll of
        None \<Rightarrow> (coll, Some ''task not found'')
      | Some t \<Rightarrow> (fst (delete_first (\<lambda>t. ID t = tid) coll), None))"
proof -
  let ?r = "delete_first (\<lambda>t. ID t = tid) coll"
  have n: "snd ?r = (case find (\<lambda>t. ID t = tid) coll of None \<Rightarrow> 0 | Some t \<Rightarrow> 1)"
    by (rule delete_first_count)
  show ?thesis
  proof (cases "find (\<lambda>t. ID t = tid) coll")
    case None
    then show ?thesis
      by (simp add: Delete_def DeleteOne_def delete_first_no_match)
  next
    case (Some t)
    with n have "snd ?r = 1" by simp
    then show ?thesis using Some
      by (cases ?r) (simp add: Delete_def DeleteOne_def)
  qed
qed

text \<open>
  Claim C9. For a record that exists (the driver going through): a caller who is not
  an administrator and does not own the record gets, from \<open>GetTask\<close> and from
  \<open>DeleteTask\<close>, the authorization error of that operation, which is not the
  \<open>task not found\<close> error; the handlers answer 403 and the collection is unchanged.
  An administrator or the owner gets the record from \<open>GetTask\<close>, and \<open>DeleteTask\<close>
  removes the first document with that identifier and returns no error.
\<close>

theorem GetTask_DeleteTask_authorization:
  assumes "find (\<lambda>t. ID t = taskID) coll = Some task"
  shows "(Role user \<noteq> UserRoleAdmin \<and> UserID task \<noteq> User_ID user \<longrightarrow>
            GetTask None coll taskID user = Inl ''unauthorized access to task'' \<and>
            GetTask None coll taskID user \<noteq> Inl ''task not found'' \<and>
            TaskHandler_GetTask None coll (Some user) (Some taskID) =
              RespondError 403 ''you don't have permission to access this task'' \<and>
            DeleteTask None f_del coll taskID user =
              (coll, Some ''unauthorized to delete this task'') \<and>
            snd (DeleteTask None f_del coll taskID user) \<noteq> Some ''task not found'' \<and>
            TaskHandler_DeleteTask None f_del coll (Some user) (Some taskID) =
              (coll, RespondError 403 ''you don't have permission to delete this task'')) \<and>
         (Role user = UserRoleAdmin \<or> UserID task = User_ID user \<longrightarrow>
            GetTask None coll taskID user = Inr task \<and>
            TaskHandler_GetTask None coll (Some user) (Some taskID) = RespondJSON 200 task \<and>
            snd (DeleteTask None None coll taskID user) = None \<and>
            (\<exists>pre post. coll = pre @ task # post \<and> (\<forall>d\<in>set pre. ID d \<noteq> taskID) \<and>
               fst (DeleteTask None None coll taskID user) = pre @ post) \<and>
            snd (TaskHandler_DeleteTask None None coll (Some user) (Some taskID)) =
              RespondJSON 200 [(''message'', ''task deleted successfully'')])"
proof (intro conjI impI)
  have found: "FindByID None coll taskID = Inr task"
    using assms by (simp add: FindByID_None)
  {
    assume no: "Role user \<noteq> UserRoleAdmin \<and> UserID task \<noteq> User_ID user"
    with found show g: "GetTask None coll taskID user = Inl ''unauthorized access to task''"
      by (simp add: GetTask_def)
    then show "GetTask None coll taskID user \<noteq> Inl ''task not found''"
      by simp
    from g show "TaskHandler_GetTask None coll (Some user) (Some taskID) =
        RespondError 403 ''you don't have permission to access this task''"
      by (simp add: TaskHandler_GetTask_def)
    from no found show d: "DeleteTask None f_del coll taskID user =
        (coll, Some ''unauthorized to delete this task'')"
      by (simp add: DeleteTask_def)
    then show "snd (DeleteTask None f_del coll taskID user) \<noteq> Some ''task not found''"
      by simp
    from d show "TaskHandler_DeleteTask None f_del coll (Some user) (Some taskID) =
        (coll, RespondError 403 ''you don't have permission to delete this task'')"
      by (simp add: TaskHandler_DeleteTask_def)
  }
  {
    assume ok: "Role user = UserRoleAdmin \<or> UserID task = User_ID user"
    with found show g: "GetTask None coll taskID user = Inr task"
      by (auto simp: GetTask_def)
    then show "TaskHandler_GetTask None coll (Some user) (Some taskID) = RespondJSON 200 task"
      by (simp add: TaskHandler_GetTask_def)
    from ok found have d: "DeleteTask None None coll taskID user =
        (fst (delete_first (\<lambda>t. ID t = taskID) coll), None)"
      using assms by (auto simp: DeleteTask_def Delete_None)
    then show "snd (DeleteTask None None coll taskID user) = None"
      by simp
    from delete_first_split [OF assms] d
    show "\<exists>pre post. coll = pre @ task # post \<and> (\<forall>d\<in>set pre. ID d \<noteq> taskID) \<and>
        fst (DeleteTask None None coll taskID user) = pre @ post"
      by simp
    from d show "snd (TaskHandler_DeleteTask None None coll (Some user) (Some taskID)) =
        RespondJSON 200 [(''message'', ''task deleted successfully'')]"
      by (simp add: TaskHandler_DeleteTask_def)
  }
qed

theorem GetTask_DeleteTask_authorization_witness:
  "find (\<lambda>t. ID t = 11) ex_coll = Some ex_t11 \<and>
   Role ex_other \<noteq> UserRoleAdmin \<and> UserID ex_t11 \<noteq> User_ID ex_other \<and>
   GetTask None ex_coll 11 ex_other = Inl ''unauthorized access to task'' \<and>
   DeleteTask None None ex_coll 11 ex_other = (ex_coll, Some ''unauthorized to delete this task'') \<and>
   UserID ex_t11 = User_ID ex_user \<and>
   GetTask None ex_coll 11 ex_user = Inr ex_t11 \<and>
   DeleteTask None None ex_coll 11 ex_user = ([ex_t12, ex_t13, ex_t14], None) \<and>
   Role ex_admin = UserRoleAdmin \<and>
   GetTask None ex_coll 11 ex_admin = Inr ex_t11 \<and>
   DeleteTask None None ex_coll 11 ex_admin = ([ex_t12, ex_t13, ex_t14], None)"
proof -
  have f: "find (\<lambda>t. ID t = 11) ex_coll = Some ex_t11"
    by (simp add: ex_defs)
  have o: "Role ex_other \<noteq> UserRoleAdmin \<and> UserID ex_t11 \<noteq> User_ID ex_other"
    by (simp add: ex_defs ex_other_def UserRoleAdmin_def UserRoleUser_def)
  have u: "UserID ex_t11 = User_ID ex_user"
    by (simp add: ex_defs ex_user_def)
  have a: "Role ex_admin = UserRoleAdmin"
    by (simp add: ex_admin_def)
  have d: "delete_first (\<lambda>t. ID t = 11) ex_coll = ([ex_t12, ex_t13, ex_t14], 1)"
    by (simp add: ex_defs)
  have du: "DeleteTask None None ex_coll 11 ex_user = ([ex_t12, ex_t13, ex_t14], None)"
    using f u d by (simp add: DeleteTask_def FindByID_None Delete_def DeleteOne_def)
  have da: "DeleteTask None None ex_coll 11 ex_admin = ([ex_t12, ex_t13, ex_t14], None)"
    using f a d by (simp add: DeleteTask_def FindByID_None Delete_def DeleteOne_def)
  show ?thesis
    using GetTask_DeleteTask_authorization [OF f, where user = ex_other and f_del = None]
      GetTask_DeleteTask_authorization [OF f, where user = ex_user and f_del = None]
      GetTask_DeleteTask_authorization [OF f, where user = ex_admin and f_del = None]
      f o u a du da
    by simp
qed

section \<open>The repository: the eligibility scan\<close>

lemma bson_DateTime_less_iff:
  "bson_DateTime c < bson_DateTime olderThan \<longleftrightarrow> c < olderThan div 1000000 * 1000000"
  unfolding bson_DateTime_def by linarith

lemma FindPendingTasks_None:
  "FindPendingTasks None None coll olderThan =
     Inr (sort_key CreatedAt
            (filter (\<lambda>t. (Status t = TaskStatusPending \<or> Status t = TaskStatusInProgress) \<and>
                          CreatedAt t < olderThan div 1000000 * 1000000) coll))"
  by (simp add: FindPendingTasks_def Find_def cursor_All_def apply_sort_def apply_limit_def
      bson_DateTime_less_iff)

lemma FindPendingTasks_Inr:
  assumes "FindPendingTasks ff fa coll olderThan = Inr found"
  shows "ff = None \<and> fa = None"
  using assms
  by (auto simp: FindPendingTasks_def Find_def cursor_All_def split: option.splits sum.splits)

text \<open>
  Claim C6 as stated fails below the millisecond. The stored task \<open>ex_s1\<close> is
  \<open>pending\<close> and was created 5 milliseconds after the epoch, strictly before the
  threshold of 5 milliseconds and 1 nanosecond; the scan compares BSON datetimes, for
  which the threshold is 5 milliseconds, and does not return it.
\<close>

theorem FindPendingTasks_skips_record_within_the_millisecond:
  "ex_s1 \<in> set ex_stored \<and> Status ex_s1 = TaskStatusPending \<and>
   CreatedAt ex_s1 = 5000000 \<and> CreatedAt ex_s1 < 5000001 \<and>
   FindPendingTasks None None ex_stored 5000001 = Inr []"
  by code_simp

text \<open>
  Claim C6, amended. For every threshold, the scan (its driver calls going through)
  returns exactly the documents of the collection, each as often as it occurs there,
  whose status is \<open>pending\<close> or \<open>in_progress\<close> and whose creation time is strictly
  before the threshold rounded down to a whole millisecond, in ascending order of
  creation time; none of them is \<open>completed\<close> and none was created at or after the
  threshold. For a threshold of whole milliseconds these are the documents created
  strictly before the threshold.
\<close>

theorem FindPendingTasks_eligible_to_the_millisecond:
  "\<exists>tasks. FindPendingTasks None None coll olderThan = Inr tasks \<and>
     mset tasks =
       filter_mset (\<lambda>t. (Status t = TaskStatusPending \<or> Status t = TaskStatusInProgress) \<and>
                         CreatedAt t < olderThan div 1000000 * 1000000) (mset coll) \<and>
     set tasks = {t \<in> set coll. (Status t = TaskStatusPending \<or> Status t = TaskStatusInProgress) \<and>
                                CreatedAt t < olderThan div 1000000 * 1000000} \<and>
     sorted (map CreatedAt tasks) \<and>
     (\<forall>t\<in>set tasks. Status t \<noteq> TaskStatusCompleted \<and> \<not> olderThan \<le> CreatedAt t) \<and>
     (olderThan mod 1000000 = 0 \<longrightarrow>
        set tasks = {t \<in> set coll. (Status t = TaskStatusPending \<or> Status t = TaskStatusInProgress) \<and>
                                   CreatedAt t < olderThan})"
proof -
  let ?P = "\<lambda>t. (Status t = TaskStatusPending \<or> Status t = TaskStatusInProgress) \<and>
                 CreatedAt t < olderThan div 1000000 * 1000000"
  let ?ts = "sort_key CreatedAt (filter ?P coll)"
  have fl: "olderThan div 1000000 * 1000000 \<le> olderThan"
    by linarith
  have r: "FindPendingTasks None None coll olderThan = Inr ?ts"
    by (rule FindPendingTasks_None)
  have m: "mset ?ts = filter_mset ?P (mset coll)"
    by simp
  have s: "set ?ts = {t \<in> set coll. ?P t}"
    by auto
  have o: "sorted (map CreatedAt ?ts)"
    by (rule sorted_sort_key)
  have c: "\<forall>t\<in>set ?ts. Status t \<noteq> TaskStatusCompleted \<and> \<not> olderThan \<le> CreatedAt t"
    using fl
    by (auto simp: TaskStatusCompleted_def TaskStatusPending_def TaskStatusInProgress_def)
  have a: "olderThan mod 1000000 = 0 \<longrightarrow>
      set ?ts = {t \<in> set coll. (Status t = TaskStatusPending \<or> Status t = TaskStatusInProgress) \<and>
                               CreatedAt t < olderThan}"
  proof
    assume "olderThan mod 1000000 = 0"
    then have "olderThan div 1000000 * 1000000 = olderThan"
      using div_mult_mod_eq [of olderThan 1000000] by simp
    with s show "set ?ts = {t \<in> set coll. (Status t = TaskStatusPending \<or>
        Status t = TaskStatusInProgress) \<and> CreatedAt t < olderThan}"
      by simp
  qed
  from r m s o c a show ?thesis by blast
qed

theorem FindPendingTasks_eligible_to_the_millisecond_witness:
  "ex_stored = [ex_s4, ex_s3, ex_s2, ex_s1] \<and>
   CreatedAt ex_s4 = 9000000 \<and> Status ex_s3 = TaskStatusCompleted \<and>
   FindPendingTasks None None ex_stored 9999999 = Inr [ex_s1, ex_s2] \<and>
   (10000000::int) mod 1000000 = 0 \<and>
   FindPendingTasks None None ex_stored 10000000 = Inr [ex_s1, ex_s2, ex_s4]"
proof -
  have a: "FindPendingTasks None None ex_stored 9999999 = Inr [ex_s1, ex_s2]"
    by code_simp
  have b: "FindPendingTasks None None ex_stored 10000000 = Inr [ex_s1, ex_s2, ex_s4]"
    by code_simp
  have c: "ex_stored = [ex_s4, ex_s3, ex_s2, ex_s1] \<and>
      CreatedAt ex_s4 = 9000000 \<and> Status ex_s3 = TaskStatusCompleted"
    by (simp add: ex_stored_def ex_s4_def ex_s3_def NewTask_def)
  have d: "(10000000::int) mod 1000000 = 0"
    by simp
  show ?thesis
    using FindPendingTasks_eligible_to_the_millisecond [of ex_stored 10000000] a b c d
    by blast
qed

section \<open>Pagination: defaults, window and the limit of the handler\<close>

lemma find_page_default_page:
  "Filter_Page flt < 1 \<Longrightarrow>
     find_page fc ff fa coll q flt = find_page fc ff fa coll q (flt\<lparr>Filter_Page := 1\<rparr>)"
  by (cases "CountDocuments fc coll q") (simp_all add: find_page_def Let_def)

lemma find_page_default_limit:
  "Filter_Limit flt < 1 \<Longrightarrow>
     find_page fc ff fa coll q flt = find_page fc ff fa coll q (flt\<lparr>Filter_Limit := 10\<rparr>)"
  by (cases "CountDocuments fc coll q") (simp_all add: find_page_def Let_def)

lemma find_page_window:
  assumes "p = (if Filter_Page flt < 1 then 1 else Filter_Page flt)"
    and "l = (if Filter_Limit flt < 1 then 10 else Filter_Limit flt)"
    and "(p - 1) * l < 2 ^ 63"
  shows "find_page None None None coll q flt =
     Inr (take (nat l) (drop (nat ((p - 1) * l)) (sort_key (\<lambda>t. - CreatedAt t) (filter q coll))),
          int (length (filter q coll)))"
proof -
  let ?sorted = "sort_key (\<lambda>t. - CreatedAt t) (filter q coll)"
  have p: "1 \<le> p" and l: "1 \<le> l"
    using assms by auto
  then have nn: "0 \<le> (p - 1) * l"
    by simp
  then have w: "wrap64 ((p - 1) * l) = (p - 1) * l"
    using assms(3) by (intro wrap64_id) auto
  have F: "Find None coll q \<lparr>opt_Skip = Some ((p - 1) * l), opt_Limit = Some l,
      opt_Sort = Some (- 1)\<rparr> = Inr (take (nat l) (drop (nat ((p - 1) * l)) ?sorted))"
  proof -
    have "\<not> (p - 1) * l < 0" using nn by linarith
    moreover have "l \<noteq> 0" "\<bar>l\<bar> = l" using l by auto
    ultimately show ?thesis
      by (simp add: Find_def apply_sort_def apply_skip_def apply_limit_def)
  qed
  have "find_page None None None coll q flt =
      (case Find None coll q \<lparr>opt_Skip = Some (wrap64 ((p - 1) * l)), opt_Limit = Some l,
          opt_Sort = Some (- 1)\<rparr> of
         Inl e \<Rightarrow> Inl (''failed to find tasks: '' @ e)
       | Inr cursor \<Rightarrow> Inr (cursor, int (length (filter q coll))))"
    unfolding assms(1,2)
    by (auto simp: find_page_def Let_def CountDocuments_def cursor_All_def split: sum.splits)
  then show ?thesis
    by (simp only: w F sum.case)
qed

lemma ListTasks_filter_range:
  assumes "ListTasks_filter atoi pageStr limitStr statusStr = Inr flt"
  shows "1 \<le> Filter_Page flt \<and> 1 \<le> Filter_Limit flt \<and> Filter_Limit flt \<le> 100"
  using assms
  by (auto simp: ListTasks_filter_def Let_def split: if_splits option.splits)

lemma ListTasks_filter_limit:
  assumes "ListTasks_filter atoi pageStr limitStr statusStr = Inr flt"
  shows "Filter_Limit flt =
     (if limitStr = [] then 10
      else case atoi limitStr of
        None \<Rightarrow> 10
      | Some n \<Rightarrow> if 0 < n \<and> n \<le> 100 then n else 10)"
  using assms
  by (auto simp: ListTasks_filter_def Let_def split: if_splits option.splits)

text \<open>
  Claim C5. \<open>FindByUserID\<close> and \<open>FindAll\<close> answer a page below 1 as they answer
  page 1, and a limit below 1 as they answer limit 10 (the zero value of an absent field
  is below 1). For a page and a limit of at least 1 whose product \<open>(page - 1) * limit\<close>
  fits in a Go \<open>int\<close>, \<open>FindByUserID\<close> (its driver calls going through) returns the
  total count and the window of \<open>limit\<close> documents that starts \<open>(page - 1) * limit\<close>
  documents into the owner's documents, newest first. The filter the handler builds has
  a page of at least 1 and a limit between 1 and 100: a requested limit outside that
  range leaves the default 10.
\<close>

theorem pagination_defaults_window_and_clamp:
  "(Filter_Page flt < 1 \<longrightarrow>
      FindByUserID fc ff fa coll userID flt =
        FindByUserID fc ff fa coll userID (flt\<lparr>Filter_Page := 1\<rparr>) \<and>
      FindAll fc ff fa coll flt = FindAll fc ff fa coll (flt\<lparr>Filter_Page := 1\<rparr>)) \<and>
   (Filter_Limit flt < 1 \<longrightarrow>
      FindByUserID fc ff fa coll userID flt =
        FindByUserID fc ff fa coll userID (flt\<lparr>Filter_Limit := 10\<rparr>) \<and>
      FindAll fc ff fa coll flt = FindAll fc ff fa coll (flt\<lparr>Filter_Limit := 10\<rparr>)) \<and>
   (1 \<le> Filter_Page flt \<and> 1 \<le> Filter_Limit flt \<and>
    (Filter_Page flt - 1) * Filter_Limit flt < 2 ^ 63 \<longrightarrow>
      FindByUserID None None None coll userID flt =
        Inr (take (nat (Filter_Limit flt))
               (drop (nat ((Filter_Page flt - 1) * Filter_Limit flt))
                  (sort_key (\<lambda>t. - CreatedAt t)
                     (filter (\<lambda>t. UserID t = userID \<and>
                                (case Filter_Status flt of None \<Rightarrow> True | Some s \<Rightarrow> Status t = s))
                        coll))),
             int (length (filter (\<lambda>t. UserID t = userID \<and>
                                (case Filter_Status flt of None \<Rightarrow> True | Some s \<Rightarrow> Status t = s))
                        coll)))) \<and>
   (ListTasks_filter atoi pageStr limitStr statusStr = Inr hflt \<longrightarrow>
      1 \<le> Filter_Page hflt \<and> 1 \<le> Filter_Limit hflt \<and> Filter_Limit hflt \<le> 100 \<and>
      Filter_Limit hflt =
        (if limitStr = [] then 10
         else case atoi limitStr of
           None \<Rightarrow> 10
         | Some n \<Rightarrow> if 0 < n \<and> n \<le> 100 then n else 10))"
proof (intro conjI impI)
  assume "Filter_Page flt < 1"
  then show "FindByUserID fc ff fa coll userID flt =
      FindByUserID fc ff fa coll userID (flt\<lparr>Filter_Page := 1\<rparr>)"
    and "FindAll fc ff fa coll flt = FindAll fc ff fa coll (flt\<lparr>Filter_Page := 1\<rparr>)"
    by (simp_all add: FindByUserID_def FindAll_def find_page_default_page)
next
  assume "Filter_Limit flt < 1"
  then show "FindByUserID fc ff fa coll userID flt =
      FindByUserID fc ff fa coll userID (flt\<lparr>Filter_Limit := 10\<rparr>)"
    and "FindAll fc ff fa coll flt = FindAll fc ff fa coll (flt\<lparr>Filter_Limit := 10\<rparr>)"
    by (simp_all add: FindByUserID_def FindAll_def find_page_default_limit)
next
  let ?q = "\<lambda>t. UserID t = userID \<and>
      (case Filter_Status flt of None \<Rightarrow> True | Some s \<Rightarrow> Status t = s)"
  assume h: "1 \<le> Filter_Page flt \<and> 1 \<le> Filter_Limit flt \<and>
    (Filter_Page flt - 1) * Filter_Limit flt < 2 ^ 63"
  then have "Filter_Page flt = (if Filter_Page flt < 1 then 1 else Filter_Page flt)"
    and "Filter_Limit flt = (if Filter_Limit flt < 1 then 10 else Filter_Limit flt)"
    by simp_all
  from find_page_window [OF this, of coll ?q] h
  show "FindByUserID None None None coll userID flt =
      Inr (take (nat (Filter_Limit flt))
             (drop (nat ((Filter_Page flt - 1) * Filter_Limit flt))
                (sort_key (\<lambda>t. - CreatedAt t) (filter ?q coll))),
           int (length (filter ?q coll)))"
    by (simp add: FindByUserID_def)
next
  assume f: "ListTasks_filter atoi pageStr limitStr statusStr = Inr hflt"
  from ListTasks_filter_range [OF f]
  show "1 \<le> Filter_Page hflt" and "1 \<le> Filter_Limit hflt" and "Filter_Limit hflt \<le> 100"
    by simp_all
  from f show "Filter_Limit hflt =
      (if limitStr = [] then 10
       else case atoi limitStr of
         None \<Rightarrow> 10
       | Some n \<Rightarrow> if 0 < n \<and> n \<le> 100 then n else 10)"
    by (rule ListTasks_filter_limit)
qed

theorem pagination_defaults_window_and_clamp_witness:
  "Filter_Page \<lparr>Filter_Status = None, Filter_Page = 0, Filter_Limit = 0\<rparr> < 1 \<and>
   Filter_Limit \<lparr>Filter_Status = None, Filter_Page = 0, Filter_Limit = 0\<rparr> < 1 \<and>
   FindByUserID None None None ex_coll 1 \<lparr>Filter_Status = None, Filter_Page = 0, Filter_Limit = 0\<rparr> =
     Inr ([ex_t14, ex_t13, ex_t11], 3) \<and>
   FindByUserID None None None ex_coll 1 \<lparr>Filter_Status = None, Filter_Page = 1, Filter_Limit = 10\<rparr> =
     Inr ([ex_t14, ex_t13, ex_t11], 3) \<and>
   FindByUserID None None None ex_coll 1 \<lparr>Filter_Status = None, Filter_Page = 2, Filter_Limit = 2\<rparr> =
     Inr ([ex_t11], 3) \<and>
   ListTasks_filter ex_atoi ''2'' ''500'' [] =
     Inr \<lparr>Filter_Status = None, Filter_Page = 2, Filter_Limit = 10\<rparr> \<and>
   ListTasks_filter ex_atoi ''-1'' ''3'' ''pending'' =
     Inr \<lparr>Filter_Status = Some ''pending'', Filter_Page = 1, Filter_Limit = 3\<rparr>"
proof -
  let ?z = "\<lparr>Filter_Status = None, Filter_Page = 0, Filter_Limit = 0\<rparr>"
  let ?d = "\<lparr>Filter_Status = None, Filter_Page = 1, Filter_Limit = 10\<rparr>"
  let ?w = "\<lparr>Filter_Status = None, Filter_Page = 2, Filter_Limit = 2\<rparr>"
  have d: "FindByUserID None None None ex_coll 1 ?d = Inr ([ex_t14, ex_t13, ex_t11], 3)"
    by code_simp
  have w: "FindByUserID None None None ex_coll 1 ?w = Inr ([ex_t11], 3)"
    by code_simp
  have h1: "ListTasks_filter ex_atoi ''2'' ''500'' [] =
      Inr \<lparr>Filter_Status = None, Filter_Page = 2, Filter_Limit = 10\<rparr>"
    by code_simp
  have h2: "ListTasks_filter ex_atoi ''-1'' ''3'' ''pending'' =
      Inr \<lparr>Filter_Status = Some ''pending'', Filter_Page = 1, Filter_Limit = 3\<rparr>"
    by code_simp
  have hw: "1 \<le> Filter_Page ?w \<and> 1 \<le> Filter_Limit ?w \<and>
      (Filter_Page ?w - 1) * Filter_Limit ?w < 2 ^ 63"
    by simp
  have z1: "Filter_Page ?z < 1" and z2: "Filter_Limit ?z < 1"
    by simp_all
  have z: "FindByUserID None None None ex_coll 1 ?z = Inr ([ex_t14, ex_t13, ex_t11], 3)"
    by code_simp
  show ?thesis
    using pagination_defaults_window_and_clamp [where flt = ?z and fc = None and ff = None
        and fa = None and coll = ex_coll and userID = 1 and atoi = ex_atoi and pageStr = "''2''"
        and limitStr = "''500''" and statusStr = "[]"
        and hflt = "\<lparr>Filter_Status = None, Filter_Page = 2, Filter_Limit = 10\<rparr>"]
      pagination_defaults_window_and_clamp [where flt = ?w and fc = None and ff = None
        and fa = None and coll = ex_coll and userID = 1 and atoi = ex_atoi and pageStr = "''-1''"
        and limitStr = "''3''" and statusStr = "''pending''"
        and hflt = "\<lparr>Filter_Status = Some ''pending'', Filter_Page = 1, Filter_Limit = 3\<rparr>"]
      d w h1 h2 hw z1 z2 z
    by blast
qed

lemma repo_call_limit_zero:
  assumes "Filter_Limit flt = 0"
    and "(if Filter_Page flt < 1 then 0 else Filter_Page flt - 1) * 10 < 2 ^ 63"
  shows "\<exists>r. find_page None None None coll q flt = Inr r"
proof -
  have "(if Filter_Page flt < 1 then 1 else Filter_Page flt) - 1 =
      (if Filter_Page flt < 1 then 0 else Filter_Page flt - 1)"
    by simp
  with assms have "((if Filter_Page flt < 1 then 1 else Filter_Page flt) - 1) *
      (if Filter_Limit flt < 1 then 10 else Filter_Limit flt) < 2 ^ 63"
    by simp
  from find_page_window [OF refl refl this] show ?thesis by blast
qed

lemma go_pages_negative_limit:
  assumes "0 \<le> a" and "b < 0"
  shows "go_quo a b + (if go_rem a b > 0 then 1 else 0) \<le> 1"
proof -
  have "0 \<le> \<bar>a\<bar> div \<bar>b\<bar>"
    using assms by (simp add: div_int_pos_iff)
  then have "go_quo a b \<le> 0"
    using assms by (cases "a = 0") (simp_all add: go_quo_def)
  then show ?thesis by simp
qed

text \<open>
  Claim C10. \<open>ListTasks\<close> divides by the limit of the filter it was called with. With
  that limit 0 the repository answers as for limit 10 (it changes only its own copy), and
  whenever it returns a result \<open>ListTasks\<close> panics with a division by zero; it does
  so with the driver going through. With a limit of at least 1 \<open>ListTasks\<close> returns.
  The filter of the handler has a limit between 1 and 100, so the handler always
  returns. With a negative limit there is no panic, but the response reports that
  negative limit and at most one page, whatever the count.
\<close>

theorem ListTasks_divides_by_caller_limit:
  "(Filter_Limit flt = 0 \<longrightarrow>
      FindByUserID fc ff fa coll (User_ID user) flt =
        FindByUserID fc ff fa coll (User_ID user) (flt\<lparr>Filter_Limit := 10\<rparr>) \<and>
      FindAll fc ff fa coll flt = FindAll fc ff fa coll (flt\<lparr>Filter_Limit := 10\<rparr>) \<and>
      ((if Role user = UserRoleAdmin then FindAll fc ff fa coll flt
        else FindByUserID fc ff fa coll (User_ID user) flt) = Inr r \<longrightarrow>
         ListTasks fc ff fa coll user flt = Panics ''runtime error: integer divide by zero'') \<and>
      ((if Filter_Page flt < 1 then 0 else Filter_Page flt - 1) * 10 < 2 ^ 63 \<longrightarrow>
         ListTasks None None None coll user flt =
           Panics ''runtime error: integer divide by zero'')) \<and>
   (1 \<le> Filter_Limit flt \<longrightarrow> (\<exists>res. ListTasks fc ff fa coll user flt = Returns res)) \<and>
   (ListTasks_filter atoi pageStr limitStr statusStr = Inr hflt \<longrightarrow>
      1 \<le> Filter_Limit hflt \<and> Filter_Limit hflt \<le> 100) \<and>
   (\<exists>res. TaskHandler_ListTasks atoi fc ff fa coll ctx_user pageStr limitStr statusStr =
      Returns res) \<and>
   (Filter_Limit flt < 0 \<and> ListTasks fc ff fa coll user flt = Returns (Inr resp) \<longrightarrow>
      Limit resp < 0 \<and> TotalPages resp \<le> 1)"
proof (intro conjI impI)
  assume z: "Filter_Limit flt = 0"
  then show "FindByUserID fc ff fa coll (User_ID user) flt =
      FindByUserID fc ff fa coll (User_ID user) (flt\<lparr>Filter_Limit := 10\<rparr>)"
    and "FindAll fc ff fa coll flt = FindAll fc ff fa coll (flt\<lparr>Filter_Limit := 10\<rparr>)"
    by (simp_all add: FindByUserID_def FindAll_def find_page_default_limit)
  {
    assume "(if Role user = UserRoleAdmin then FindAll fc ff fa coll flt
        else FindByUserID fc ff fa coll (User_ID user) flt) = Inr r"
    with z show "ListTasks fc ff fa coll user flt = Panics ''runtime error: integer divide by zero''"
      by (cases r) (simp add: ListTasks_def)
  }
  {
    assume "(if Filter_Page flt < 1 then 0 else Filter_Page flt - 1) * 10 < 2 ^ 63"
    from repo_call_limit_zero [OF z this]
    have "\<exists>r. (if Role user = UserRoleAdmin then FindAll None None None coll flt
        else FindByUserID None None None coll (User_ID user) flt) = Inr r"
      by (simp add: FindAll_def FindByUserID_def)
    then obtain ts n where "(if Role user = UserRoleAdmin then FindAll None None None coll flt
        else FindByUserID None None None coll (User_ID user) flt) = Inr (ts, n)"
      by fastforce
    with z show "ListTasks None None None coll user flt =
        Panics ''runtime error: integer divide by zero''"
      by (simp add: ListTasks_def)
  }
next
  assume "1 \<le> Filter_Limit flt"
  then show "\<exists>res. ListTasks fc ff fa coll user flt = Returns res"
    by (auto simp: ListTasks_def Let_def split: sum.splits prod.splits)
next
  assume "ListTasks_filter atoi pageStr limitStr statusStr = Inr hflt"
  from ListTasks_filter_range [OF this]
  show "1 \<le> Filter_Limit hflt" and "Filter_Limit hflt \<le> 100"
    by simp_all
next
  show "\<exists>res. TaskHandler_ListTasks atoi fc ff fa coll ctx_user pageStr limitStr statusStr =
      Returns res"
  proof (cases ctx_user)
    case None
    then show ?thesis by (simp add: TaskHandler_ListTasks_def)
  next
    case (Some user)
    show ?thesis
    proof (cases "ListTasks_filter atoi pageStr limitStr statusStr")
      case (Inl msg)
      with Some show ?thesis by (simp add: TaskHandler_ListTasks_def)
    next
      case (Inr hflt)
      from ListTasks_filter_range [OF this] have "Filter_Limit hflt \<noteq> 0"
        by simp
      then have "\<exists>res. ListTasks fc ff fa coll user hflt = Returns res"
        by (auto simp: ListTasks_def Let_def split: sum.splits prod.splits)
      with Some Inr show ?thesis
        by (auto simp: TaskHandler_ListTasks_def split: sum.splits)
    qed
  qed
next
  assume h: "Filter_Limit flt < 0 \<and> ListTasks fc ff fa coll user flt = Returns (Inr resp)"
  then have ret: "ListTasks fc ff fa coll user flt = Returns (Inr resp)"
    by simp
  from ListTasks_pages_formula [OF ret] h show "Limit resp < 0"
    by simp
  from ListTasks_count_nonneg [OF ret] h ListTasks_pages_formula [OF ret]
    go_pages_negative_limit [of "TotalCount resp" "Filter_Limit flt"]
  show "TotalPages resp \<le> 1"
    by simp
qed

theorem ListTasks_divides_by_caller_limit_witness:
  "Filter_Limit \<lparr>Filter_Status = None, Filter_Page = 0, Filter_Limit = 0\<rparr> = 0 \<and>
   FindByUserID None None None ex_coll (User_ID ex_user)
       \<lparr>Filter_Status = None, Filter_Page = 0, Filter_Limit = 0\<rparr> =
     Inr ([ex_t14, ex_t13, ex_t11], 3) \<and>
   ListTasks None None None ex_coll ex_user \<lparr>Filter_Status = None, Filter_Page = 0, Filter_Limit = 0\<rparr> =
     Panics ''runtime error: integer divide by zero'' \<and>
   1 \<le> Filter_Limit \<lparr>Filter_Status = None, Filter_Page = 2, Filter_Limit = 2\<rparr> \<and>
   ListTasks None None None ex_coll ex_user \<lparr>Filter_Status = None, Filter_Page = 2, Filter_Limit = 2\<rparr> =
     Returns (Inr \<lparr>Tasks = [ex_t11], Page = 2, Limit = 2, TotalCount = 3, TotalPages = 2\<rparr>) \<and>
   ListTasks_filter ex_atoi [] ''0'' [] =
     Inr \<lparr>Filter_Status = None, Filter_Page = 1, Filter_Limit = 10\<rparr> \<and>
   TaskHandler_ListTasks ex_atoi None None None ex_coll (Some ex_user) [] ''0'' [] =
     Returns (RespondJSON 200 \<lparr>Tasks = [ex_t14, ex_t13, ex_t11], Page = 1, Limit = 10,
                                TotalCount = 3, TotalPages = 1\<rparr>) \<and>
   Filter_Limit \<lparr>Filter_Status = None, Filter_Page = 1, Filter_Limit = - 2\<rparr> < 0 \<and>
   ListTasks None None None ex_coll ex_user \<lparr>Filter_Status = None, Filter_Page = 1, Filter_Limit = - 2\<rparr> =
     Returns (Inr \<lparr>Tasks = [ex_t14, ex_t13, ex_t11], Page = 1, Limit = - 2, TotalCount = 3,
                   TotalPages = 0\<rparr>)"
proof -
  let ?z = "\<lparr>Filter_Status = None, Filter_Page = 0, Filter_Limit = 0\<rparr>"
  let ?w = "\<lparr>Filter_Status = None, Filter_Page = 2, Filter_Limit = 2\<rparr>"
  let ?n = "\<lparr>Filter_Status = None, Filter_Page = 1, Filter_Limit = - 2\<rparr>"
  have z0: "Filter_Limit ?z = 0" and w1: "1 \<le> Filter_Limit ?w" and n0: "Filter_Limit ?n < 0"
    by simp_all
  have zr: "FindByUserID None None None ex_coll (User_ID ex_user) ?z =
      Inr ([ex_t14, ex_t13, ex_t11], 3)"
    by code_simp
  have zp: "ListTasks None None None ex_coll ex_user ?z =
      Panics ''runtime error: integer divide by zero''"
    by code_simp
  have wr: "ListTasks None None None ex_coll ex_user ?w =
      Returns (Inr \<lparr>Tasks = [ex_t11], Page = 2, Limit = 2, TotalCount = 3, TotalPages = 2\<rparr>)"
    by code_simp
  have hf: "ListTasks_filter ex_atoi [] ''0'' [] =
      Inr \<lparr>Filter_Status = None, Filter_Page = 1, Filter_Limit = 10\<rparr>"
    by code_simp
  have hr: "TaskHandler_ListTasks ex_atoi None None None ex_coll (Some ex_user) [] ''0'' [] =
      Returns (RespondJSON 200 \<lparr>Tasks = [ex_t14, ex_t13, ex_t11], Page = 1, Limit = 10,
                                 TotalCount = 3, TotalPages = 1\<rparr>)"
    by code_simp
  have nr: "ListTasks None None None ex_coll ex_user ?n =
      Returns (Inr \<lparr>Tasks = [ex_t14, ex_t13, ex_t11], Page = 1, Limit = - 2, TotalCount = 3,
                    TotalPages = 0\<rparr>)"
    by code_simp
  show ?thesis
    using ListTasks_divides_by_caller_limit [where flt = ?z and fc = None and ff = None
        and fa = None and coll = ex_coll and user = ex_user
        and r = "([ex_t14, ex_t13, ex_t11], 3)" and atoi = ex_atoi and pageStr = "[]"
        and limitStr = "''0''" and statusStr = "[]"
        and hflt = "\<lparr>Filter_Status = None, Filter_Page = 1, Filter_Limit = 10\<rparr>"]
      ListTasks_divides_by_caller_limit [where flt = ?w and fc = None and ff = None
        and fa = None and coll = ex_coll and user = ex_user]
      ListTasks_divides_by_caller_limit [where flt = ?n and fc = None and ff = None
        and fa = None and coll = ex_coll and user = ex_user
        and resp = "\<lparr>Tasks = [ex_t14, ex_t13, ex_t11], Page = 1, Limit = - 2, TotalCount = 3,
                    TotalPages = 0\<rparr>"]
      z0 w1 n0 zr zp wr hf hr nr
    by blast
qed

section \<open>The work queue: capacity, dropping and rediscovery\<close>

lemma try_send_Sent:
  assumes "try_send ch v = Sent ch'"
  shows "ch' = ch\<lparr>chan_buf := chan_buf ch @ [v]\<rparr> \<and> \<not> chan_closed ch \<and>
         length (chan_buf ch) < chan_cap ch"
  using assms by (auto simp: try_send_def split: if_splits)

lemma queue_tasks_open:
  assumes "\<not> chan_closed ch" and "length (chan_buf ch) \<le> chan_cap ch"
  shows "\<exists>ch' ls. queue_tasks ch tasks = Returns (ch', ls) \<and> \<not> chan_closed ch' \<and>
           chan_cap ch' = chan_cap ch \<and> length (chan_buf ch') \<le> chan_cap ch' \<and>
           length (chan_buf ch) \<le> length (chan_buf ch')"
  using assms
proof (induction tasks arbitrary: ch)
  case Nil
  then show ?case by simp
next
  case (Cons task tasks)
  show ?case
  proof (cases "length (chan_buf ch) < chan_cap ch")
    case True
    let ?ch1 = "ch\<lparr>chan_buf := chan_buf ch @ [ID task]\<rparr>"
    from True Cons.prems have s: "try_send ch (ID task) = Sent ?ch1"
      by (simp add: try_send_def)
    have "\<not> chan_closed ?ch1" and "length (chan_buf ?ch1) \<le> chan_cap ?ch1"
      using True Cons.prems by simp_all
    from Cons.IH [OF this] obtain ch' ls where
      "queue_tasks ?ch1 tasks = Returns (ch', ls)" "\<not> chan_closed ch'"
      "chan_cap ch' = chan_cap ?ch1" "length (chan_buf ch') \<le> chan_cap ch'"
      "length (chan_buf ?ch1) \<le> length (chan_buf ch')"
      by blast
    with s show ?thesis by simp
  next
    case False
    with Cons.prems have s: "try_send ch (ID task) = WouldBlock"
      by (simp add: try_send_def)
    from Cons.IH [OF Cons.prems] obtain ch' ls where
      "queue_tasks ch tasks = Returns (ch', ls)" "\<not> chan_closed ch'"
      "chan_cap ch' = chan_cap ch" "length (chan_buf ch') \<le> chan_cap ch'"
      "length (chan_buf ch) \<le> length (chan_buf ch')"
      by blast
    with s show ?thesis by simp
  qed
qed

lemma queue_tasks_full:
  assumes "\<not> chan_closed ch" and "length (chan_buf ch) = chan_cap ch"
  shows "queue_tasks ch tasks = Returns (ch, map (\<lambda>t. LogChannelFull (ID t)) tasks)"
  using assms by (induction tasks) (simp_all add: try_send_def)

lemma checkAndQueueTasks_open:
  assumes "\<not> chan_closed (taskChannel w)"
    and "length (chan_buf (taskChannel w)) \<le> chan_cap (taskChannel w)"
  shows "\<exists>w' ls. checkAndQueueTasks w now ff fa coll = Returns (w', ls) \<and>
           \<not> chan_closed (taskChannel w') \<and>
           chan_cap (taskChannel w') = chan_cap (taskChannel w) \<and>
           length (chan_buf (taskChannel w')) \<le> chan_cap (taskChannel w')"
proof (cases "FindPendingTasks ff fa coll (threshold w now)")
  case (Inl err)
  with assms show ?thesis by (simp add: checkAndQueueTasks_def)
next
  case (Inr tasks)
  from queue_tasks_open [OF assms, of tasks] obtain ch' ls where
    "queue_tasks (taskChannel w) tasks = Returns (ch', ls)" "\<not> chan_closed ch'"
    "chan_cap ch' = chan_cap (taskChannel w)" "length (chan_buf ch') \<le> chan_cap ch'"
    by blast
  with Inr show ?thesis by (simp add: checkAndQueueTasks_def)
qed

lemma sys_inv_Start: "sys_inv (Start (NewTaskWorker minutes) coll)"
  by (simp add: sys_inv_def Start_def NewTaskWorker_def make_chan_def)

lemma sys_inv_Start_loop:
  assumes "sys_inv s" and "Start_loop sel s = Some s'"
  shows "sys_inv s'"
proof (cases sel)
  case Start_ctx_Done
  with assms show ?thesis
    by (auto simp: Start_loop_def sys_inv_def close_chan_def split: if_splits)
next
  case (Start_ticker now ff fa)
  from assms have run: "scanner s = Running"
    by (auto simp: Start_loop_def split: if_splits)
  with assms(1) have "\<not> chan_closed (taskChannel (worker s))"
    and "length (chan_buf (taskChannel (worker s))) \<le> chan_cap (taskChannel (worker s))"
    by (simp_all add: sys_inv_def)
  from checkAndQueueTasks_open [OF this, of now ff fa "tasks_coll s"] obtain w' ls where
    "checkAndQueueTasks (worker s) now ff fa (tasks_coll s) = Returns (w', ls)"
    "\<not> chan_closed (taskChannel w')"
    "chan_cap (taskChannel w') = chan_cap (taskChannel (worker s))"
    "length (chan_buf (taskChannel w')) \<le> chan_cap (taskChannel w')"
    by blast
  with assms run Start_ticker show ?thesis
    by (auto simp: Start_loop_def sys_inv_def)
qed

lemma sys_inv_processTasksFromChannel:
  assumes "sys_inv s" and "processTasksFromChannel i sel s = Some s'"
  shows "sys_inv s'"
proof (cases sel)
  case Worker_ctx_Done
  with assms show ?thesis
    by (auto simp: processTasksFromChannel_def sys_inv_def split: if_splits)
next
  case (Worker_taskChannel now upd_now f_find f_upd)
  with assms show ?thesis
    by (auto simp: processTasksFromChannel_def sys_inv_def try_recv_def
        split: if_splits list.splits prod.splits)
qed

lemma sys_inv_step:
  assumes "sys_inv s" and "step ev s = Some s'"
  shows "sys_inv s'"
proof (cases ev)
  case Cancel
  with assms show ?thesis by (auto simp: step_def sys_inv_def split: if_splits)
next
  case (StoreWrite coll)
  with assms show ?thesis by (auto simp: step_def sys_inv_def split: if_splits)
next
  case (Scanner sel)
  with assms show ?thesis
    by (auto simp: step_def split: if_splits intro: sys_inv_Start_loop)
next
  case (Consumer i sel)
  with assms show ?thesis
    by (auto simp: step_def split: if_splits intro: sys_inv_processTasksFromChannel)
qed

lemma sys_inv_run:
  assumes "sys_inv s" and "run evs s = Some s'"
  shows "sys_inv s'"
  using assms
proof (induction evs arbitrary: s)
  case Nil
  then show ?case by simp
next
  case (Cons ev evs)
  then show ?case
    by (auto split: option.splits intro: sys_inv_step)
qed

lemma threshold_mono: "now \<le> now' \<Longrightarrow> threshold w now \<le> threshold w now'"
  by (simp add: threshold_def Add_def)

lemma FindPendingTasks_found_again:
  assumes "FindPendingTasks ff fa coll (threshold w now) = Inr found"
    and "t \<in> set found" and "t \<in> set coll'" and "now \<le> now'"
  shows "\<exists>tasks. FindPendingTasks None None coll' (threshold w now') = Inr tasks \<and> t \<in> set tasks"
proof -
  from FindPendingTasks_Inr [OF assms(1)] have "ff = None" and "fa = None"
    by simp_all
  with assms(1,2) have el: "(Status t = TaskStatusPending \<or> Status t = TaskStatusInProgress) \<and>
      CreatedAt t < threshold w now div 1000000 * 1000000"
    by (auto simp: FindPendingTasks_None)
  have "threshold w now \<le> threshold w now'"
    using assms(4) by (rule threshold_mono)
  then have "threshold w now div 1000000 \<le> threshold w now' div 1000000"
    by (rule zdiv_mono1) simp
  then have "threshold w now div 1000000 * 1000000 \<le> threshold w now' div 1000000 * 1000000"
    by simp
  with el have "CreatedAt t < threshold w now' div 1000000 * 1000000"
    by linarith
  with el assms(3) show ?thesis
    by (simp add: FindPendingTasks_None)
qed

text \<open>
  Claim C7. In every state the subsystem reaches from its start, whatever the events,
  the channel holds at most 100 identifiers and nothing has panicked. On an open
  channel that is full, the send of a further identifier takes the \<open>default\<close> branch:
  the scan returns, with the channel as it was and one skip line for each task found.
  A task that a scan found, and so may have skipped, and that is still in the collection
  as it was (still \<open>pending\<close> or \<open>in_progress\<close>), is found again by any later
  scan whose clock reading is not earlier.
\<close>

theorem taskChannel_bounded_drop_and_rediscover:
  "(run evs (Start (NewTaskWorker minutes) coll) = Some s \<longrightarrow>
      length (chan_buf (taskChannel (worker s))) \<le> 100 \<and> \<not> panicked s) \<and>
   (\<not> chan_closed (taskChannel w) \<and>
    length (chan_buf (taskChannel w)) = chan_cap (taskChannel w) \<longrightarrow>
      try_send (taskChannel w) v = WouldBlock \<and>
      (FindPendingTasks ff fa coll' (threshold w now) = Inr found \<longrightarrow>
         checkAndQueueTasks w now ff fa coll' =
           Returns (w, map (\<lambda>t. LogChannelFull (ID t)) found))) \<and>
   (FindPendingTasks ff fa coll' (threshold w now) = Inr found \<and> t \<in> set found \<and>
    t \<in> set coll'' \<and> now \<le> now' \<longrightarrow>
      (\<exists>tasks. FindPendingTasks None None coll'' (threshold w now') = Inr tasks \<and>
         t \<in> set tasks))"
proof (intro conjI impI)
  assume "run evs (Start (NewTaskWorker minutes) coll) = Some s"
  with sys_inv_Start have "sys_inv s"
    by (rule sys_inv_run)
  then show "length (chan_buf (taskChannel (worker s))) \<le> 100" and "\<not> panicked s"
    by (simp_all add: sys_inv_def)
next
  assume full: "\<not> chan_closed (taskChannel w) \<and>
    length (chan_buf (taskChannel w)) = chan_cap (taskChannel w)"
  then show "try_send (taskChannel w) v = WouldBlock"
    by (simp add: try_send_def)
  assume "FindPendingTasks ff fa coll' (threshold w now) = Inr found"
  with full queue_tasks_full [of "taskChannel w" found]
  show "checkAndQueueTasks w now ff fa coll' =
      Returns (w, map (\<lambda>t. LogChannelFull (ID t)) found)"
    by (simp add: checkAndQueueTasks_def)
next
  assume "FindPendingTasks ff fa coll' (threshold w now) = Inr found \<and> t \<in> set found \<and>
    t \<in> set coll'' \<and> now \<le> now'"
  then have "FindPendingTasks ff fa coll' (threshold w now) = Inr found" and "t \<in> set found"
    and "t \<in> set coll''" and "now \<le> now'"
    by simp_all
  then show "\<exists>tasks. FindPendingTasks None None coll'' (threshold w now') = Inr tasks \<and>
      t \<in> set tasks"
    by (rule FindPendingTasks_found_again)
qed

theorem taskChannel_bounded_drop_and_rediscover_witness:
  "run [Scanner (Start_ticker ex_tick None None)] (Start (NewTaskWorker 10) ex_many) =
     Some ex_scanned \<and>
   chan_buf (taskChannel (worker ex_scanned)) = [0..<100] \<and>
   \<not> chan_closed (taskChannel (worker ex_scanned)) \<and>
   length (chan_buf (taskChannel (worker ex_scanned))) = chan_cap (taskChannel (worker ex_scanned)) \<and>
   try_send (taskChannel (worker ex_scanned)) 100 = WouldBlock \<and>
   FindPendingTasks None None ex_many (threshold (worker ex_scanned) ex_tick) = Inr ex_many \<and>
   checkAndQueueTasks (worker ex_scanned) ex_tick None None ex_many =
     Returns (worker ex_scanned, map (\<lambda>t. LogChannelFull (ID t)) ex_many) \<and>
   (NewTask 1 [] [] TaskStatusPending 100000000)\<lparr>ID := 100\<rparr> \<in> set ex_many \<and>
   ex_tick \<le> ex_tick + Minute \<and>
   FindPendingTasks None None ex_many (threshold (worker ex_scanned) (ex_tick + Minute)) =
     Inr ex_many"
proof -
  let ?t = "(NewTask 1 [] [] TaskStatusPending 100000000)\<lparr>ID := 100\<rparr>"
  have r: "run [Scanner (Start_ticker ex_tick None None)] (Start (NewTaskWorker 10) ex_many) =
      Some ex_scanned"
    by code_simp
  have b: "chan_buf (taskChannel (worker ex_scanned)) = [0..<100]"
    by (simp add: ex_scanned_def)
  have o: "\<not> chan_closed (taskChannel (worker ex_scanned))"
    by (simp add: ex_scanned_def ex_defs)
  have f: "length (chan_buf (taskChannel (worker ex_scanned))) =
      chan_cap (taskChannel (worker ex_scanned))"
    by (simp add: ex_scanned_def ex_defs)
  have p1: "FindPendingTasks None None ex_many (threshold (worker ex_scanned) ex_tick) = Inr ex_many"
    by code_simp
  have p2: "FindPendingTasks None None ex_many (threshold (worker ex_scanned) (ex_tick + Minute)) =
      Inr ex_many"
    by code_simp
  have m: "?t \<in> set ex_many"
    by code_simp
  have n: "ex_tick \<le> ex_tick + Minute"
    by (simp add: Minute_def)
  show ?thesis
    using taskChannel_bounded_drop_and_rediscover [where evs = "[Scanner (Start_ticker ex_tick None None)]"
        and minutes = 10 and coll = ex_many and s = ex_scanned and w = "worker ex_scanned"
        and v = 100 and ff = None and fa = None and coll' = ex_many and now = ex_tick
        and found = ex_many and t = ?t and coll'' = ex_many and now' = "ex_tick + Minute"]
      r b o f p1 p2 m n
    by blast
qed

section \<open>Cancellation\<close>

text \<open>
  Claim C3 as stated fails. In the shutdown of the example, five identifiers are
  queued and three tasks completed before the context is cancelled; the scanner closes
  the channel and returns, and each worker's \<open>select\<close>, for which both the
  cancellation and the receive can proceed, takes the cancellation branch. All
  goroutines have then exited, the identifiers 4 and 5 are still in the channel, and
  their tasks are still \<open>pending\<close>.
\<close>

theorem workers_exit_without_draining:
  "map_option
     (\<lambda>s. (ctx_done s, scanner s, consumers s, chan_closed (taskChannel (worker s)),
           chan_buf (taskChannel (worker s)), map (\<lambda>t. (ID t, Status t)) (tasks_coll s)))
     (run ex_shutdown (Start (NewTaskWorker 10) ex_backlog)) =
   Some (True, Exited, [Exited, Exited, Exited], True, [4, 5],
         [(1, TaskStatusCompleted), (2, TaskStatusCompleted), (3, TaskStatusCompleted),
          (4, TaskStatusPending), (5, TaskStatusPending)])"
  by code_simp

lemma threshold_minutes:
  "autoCompleteMinutes w = autoCompleteMinutes w' \<Longrightarrow> threshold w = threshold w'"
  by (rule ext) (simp add: threshold_def)

lemma autoCompleteTask_minutes:
  assumes "autoCompleteMinutes w = autoCompleteMinutes w'"
  shows "autoCompleteTask w now upd_now f_find f_upd coll tid =
     autoCompleteTask w' now upd_now f_find f_upd coll tid"
  unfolding autoCompleteTask_def threshold_minutes [OF assms] by (rule refl)

lemma step_receive:
  assumes "i < length (consumers s)" and "consumers s ! i = Running" and "\<not> panicked s"
    and "chan_buf (taskChannel (worker s)) = tid # rest"
  shows "step (Consumer i (Worker_taskChannel now upd_now f_find f_upd)) s =
     Some (s\<lparr>tasks_coll := fst (autoCompleteTask (worker s) now upd_now f_find f_upd (tasks_coll s) tid),
             worker := (worker s)\<lparr>taskChannel := (taskChannel (worker s))\<lparr>chan_buf := rest\<rparr>\<rparr>,
             logged := logged s @
               snd (autoCompleteTask (worker s) now upd_now f_find f_upd (tasks_coll s) tid)\<rparr>)"
  using assms
  by (simp add: step_def processTasksFromChannel_def try_recv_def split: prod.splits)

lemma step_receive_closed_empty:
  assumes "i < length (consumers s)" and "consumers s ! i = Running" and "\<not> panicked s"
    and "chan_buf (taskChannel (worker s)) = []" and "chan_closed (taskChannel (worker s))"
  shows "step (Consumer i (Worker_taskChannel now upd_now f_find f_upd)) s =
     Some (s\<lparr>consumers := (consumers s)[i := Exited]\<rparr>)"
  using assms by (simp add: step_def processTasksFromChannel_def try_recv_def)

lemma receive_drains:
  assumes "i < length (consumers s)" and "consumers s ! i = Running" and "\<not> panicked s"
    and "chan_buf (taskChannel (worker s)) = ids"
  shows "\<exists>s'. run (replicate (length ids) (Consumer i (Worker_taskChannel now upd_now f_find f_upd))) s =
           Some s' \<and>
         chan_buf (taskChannel (worker s')) = [] \<and>
         tasks_coll s' =
           foldl (\<lambda>c tid. fst (autoCompleteTask (worker s) now upd_now f_find f_upd c tid))
             (tasks_coll s) ids \<and>
         consumers s' = consumers s \<and> \<not> panicked s' \<and>
         chan_closed (taskChannel (worker s')) = chan_closed (taskChannel (worker s)) \<and>
         autoCompleteMinutes (worker s') = autoCompleteMinutes (worker s)"
  using assms
proof (induction ids arbitrary: s)
  case Nil
  then show ?case by simp
next
  case (Cons tid rest)
  let ?ev = "Consumer i (Worker_taskChannel now upd_now f_find f_upd)"
  let ?s1 = "s\<lparr>tasks_coll := fst (autoCompleteTask (worker s) now upd_now f_find f_upd (tasks_coll s) tid),
      worker := (worker s)\<lparr>taskChannel := (taskChannel (worker s))\<lparr>chan_buf := rest\<rparr>\<rparr>,
      logged := logged s @
        snd (autoCompleteTask (worker s) now upd_now f_find f_upd (tasks_coll s) tid)\<rparr>"
  have st: "step ?ev s = Some ?s1"
    using Cons.prems by (rule step_receive)
  have "i < length (consumers ?s1)" and "consumers ?s1 ! i = Running" and "\<not> panicked ?s1"
    and "chan_buf (taskChannel (worker ?s1)) = rest"
    using Cons.prems by simp_all
  from Cons.IH [OF this] obtain s' where s':
    "run (replicate (length rest) ?ev) ?s1 = Some s'"
    "chan_buf (taskChannel (worker s')) = []"
    "tasks_coll s' =
       foldl (\<lambda>c tid. fst (autoCompleteTask (worker ?s1) now upd_now f_find f_upd c tid))
         (tasks_coll ?s1) rest"
    "consumers s' = consumers ?s1" "\<not> panicked s'"
    "chan_closed (taskChannel (worker s')) = chan_closed (taskChannel (worker ?s1))"
    "autoCompleteMinutes (worker s') = autoCompleteMinutes (worker ?s1)"
    by blast
  have w: "autoCompleteTask (worker ?s1) now upd_now f_find f_upd =
      autoCompleteTask (worker s) now upd_now f_find f_upd"
    by (intro ext autoCompleteTask_minutes) simp
  have tc: "tasks_coll s' =
      foldl (\<lambda>c tid. fst (autoCompleteTask (worker s) now upd_now f_find f_upd c tid))
        (tasks_coll s) (tid # rest)"
    unfolding s'(3) w by simp
  have r: "run (replicate (length (tid # rest)) ?ev) s = Some s'"
    using st s'(1) by simp
  from s'(4,6,7) have "consumers s' = consumers s"
    and "chan_closed (taskChannel (worker s')) = chan_closed (taskChannel (worker s))"
    and "autoCompleteMinutes (worker s') = autoCompleteMinutes (worker s)"
    by simp_all
  with r tc s'(2,5) show ?case
    by blast
qed

lemma scanner_exited_run:
  assumes "scanner s = Exited" and "run evs s = Some s'"
  shows "scanner s' = Exited \<and> (\<forall>sel. Scanner sel \<notin> set evs)"
  using assms
proof (induction evs arbitrary: s)
  case Nil
  then show ?case by simp
next
  case (Cons ev evs)
  from Cons.prems obtain s1 where s1: "step ev s = Some s1" "run evs s1 = Some s'"
    by (auto split: option.splits)
  have notscan: "\<forall>sel. ev \<noteq> Scanner sel"
    using s1(1) Cons.prems(1) by (auto simp: step_def Start_loop_def split: if_splits)
  have "scanner s1 = Exited"
    using s1(1) Cons.prems(1) notscan
    by (cases ev)
      (auto simp: step_def processTasksFromChannel_def split: if_splits worker_select.splits
        recv_result.splits prod.splits)
  from Cons.IH [OF this s1(2)] notscan show ?case
    by auto
qed

text \<open>
  Claim C3, amended. In a state reached from the start in which the scanner still runs
  and the context is cancelled, the cancellation branch of the scanner closes the
  channel and ends the scanner, leaving buffer and collection as they are; once the
  scanner has exited, no later run contains a step of it, so no scan. A running worker
  may take its cancellation branch whenever the context is cancelled, whatever the
  channel holds, and exits leaving the channel as it is. As long as it takes the receive
  branch instead, it passes the buffered identifiers, oldest first, to
  \<open>autoCompleteTask\<close> until the buffer is empty, and on a closed channel its next
  receive makes it exit.
\<close>

theorem cancellation_closes_queue_workers_may_exit_early:
  "(run evs (Start (NewTaskWorker minutes) coll) = Some s \<and> scanner s = Running \<and> ctx_done s \<longrightarrow>
      step (Scanner Start_ctx_Done) s =
        Some (s\<lparr>worker := (worker s)\<lparr>taskChannel := (taskChannel (worker s))\<lparr>chan_closed := True\<rparr>\<rparr>,
                scanner := Exited, logged := logged s @ [LogStopped]\<rparr>)) \<and>
   (scanner s = Exited \<and> run evs' s = Some s' \<longrightarrow>
      scanner s' = Exited \<and> (\<forall>sel. Scanner sel \<notin> set evs')) \<and>
   (i < length (consumers s) \<and> consumers s ! i = Running \<and> \<not> panicked s \<and> ctx_done s \<longrightarrow>
      step (Consumer i Worker_ctx_Done) s = Some (s\<lparr>consumers := (consumers s)[i := Exited]\<rparr>)) \<and>
   (i < length (consumers s) \<and> consumers s ! i = Running \<and> \<not> panicked s \<longrightarrow>
      (\<exists>d. run (replicate (length (chan_buf (taskChannel (worker s))))
                 (Consumer i (Worker_taskChannel now upd_now f_find f_upd))) s = Some d \<and>
           chan_buf (taskChannel (worker d)) = [] \<and>
           tasks_coll d =
             foldl (\<lambda>c tid. fst (autoCompleteTask (worker s) now upd_now f_find f_upd c tid))
               (tasks_coll s) (chan_buf (taskChannel (worker s))) \<and>
           consumers d = consumers s \<and>
           (chan_closed (taskChannel (worker s)) \<longrightarrow>
              step (Consumer i (Worker_taskChannel now upd_now f_find f_upd)) d =
                Some (d\<lparr>consumers := (consumers d)[i := Exited]\<rparr>))))"
proof (intro conjI impI)
  assume h: "run evs (Start (NewTaskWorker minutes) coll) = Some s \<and> scanner s = Running \<and>
    ctx_done s"
  with sys_inv_Start have "sys_inv s"
    by (blast intro: sys_inv_run)
  with h have "\<not> panicked s" and "\<not> chan_closed (taskChannel (worker s))"
    by (simp_all add: sys_inv_def)
  with h show "step (Scanner Start_ctx_Done) s =
      Some (s\<lparr>worker := (worker s)\<lparr>taskChannel := (taskChannel (worker s))\<lparr>chan_closed := True\<rparr>\<rparr>,
              scanner := Exited, logged := logged s @ [LogStopped]\<rparr>)"
    by (simp add: step_def Start_loop_def close_chan_def)
next
  assume "scanner s = Exited \<and> run evs' s = Some s'"
  then have "scanner s = Exited" and "run evs' s = Some s'"
    by simp_all
  then have "scanner s' = Exited \<and> (\<forall>sel. Scanner sel \<notin> set evs')"
    by (rule scanner_exited_run)
  then show "scanner s' = Exited" and "\<forall>sel. Scanner sel \<notin> set evs'"
    by simp_all
next
  assume "i < length (consumers s) \<and> consumers s ! i = Running \<and> \<not> panicked s \<and> ctx_done s"
  then show "step (Consumer i Worker_ctx_Done) s =
      Some (s\<lparr>consumers := (consumers s)[i := Exited]\<rparr>)"
    by (simp add: step_def processTasksFromChannel_def)
next
  let ?ev = "Consumer i (Worker_taskChannel now upd_now f_find f_upd)"
  assume h: "i < length (consumers s) \<and> consumers s ! i = Running \<and> \<not> panicked s"
  then have "i < length (consumers s)" and "consumers s ! i = Running" and "\<not> panicked s"
    by simp_all
  from receive_drains [OF this refl, of now upd_now f_find f_upd] obtain d where d:
    "run (replicate (length (chan_buf (taskChannel (worker s)))) ?ev) s = Some d"
    "chan_buf (taskChannel (worker d)) = []"
    "tasks_coll d =
       foldl (\<lambda>c tid. fst (autoCompleteTask (worker s) now upd_now f_find f_upd c tid))
         (tasks_coll s) (chan_buf (taskChannel (worker s)))"
    "consumers d = consumers s" "\<not> panicked d"
    "chan_closed (taskChannel (worker d)) = chan_closed (taskChannel (worker s))"
    by blast
  have "chan_closed (taskChannel (worker s)) \<longrightarrow>
      step ?ev d = Some (d\<lparr>consumers := (consumers d)[i := Exited]\<rparr>)"
  proof
    assume "chan_closed (taskChannel (worker s))"
    with d(6) have cl: "chan_closed (taskChannel (worker d))"
      by simp
    from h d(4) have "i < length (consumers d)" and "consumers d ! i = Running"
      by simp_all
    from this d(5) d(2) cl show "step ?ev d = Some (d\<lparr>consumers := (consumers d)[i := Exited]\<rparr>)"
      by (rule step_receive_closed_empty)
  qed
  with d show "\<exists>d. run (replicate (length (chan_buf (taskChannel (worker s)))) ?ev) s = Some d \<and>
      chan_buf (taskChannel (worker d)) = [] \<and>
      tasks_coll d =
        foldl (\<lambda>c tid. fst (autoCompleteTask (worker s) now upd_now f_find f_upd c tid))
          (tasks_coll s) (chan_buf (taskChannel (worker s))) \<and>
      consumers d = consumers s \<and>
      (chan_closed (taskChannel (worker s)) \<longrightarrow>
         step ?ev d = Some (d\<lparr>consumers := (consumers d)[i := Exited]\<rparr>))"
    by blast
qed

theorem cancellation_closes_queue_workers_may_exit_early_witness:
  "run [Cancel] (Start (NewTaskWorker 10) ex_coll) = Some ex_cancelled \<and>
   scanner ex_cancelled = Running \<and> ctx_done ex_cancelled \<and>
   step (Scanner Start_ctx_Done) ex_cancelled = Some ex_stopped \<and>
   scanner ex_stopped = Exited \<and> chan_closed (taskChannel (worker ex_stopped)) \<and>
   run [Consumer 0 Worker_ctx_Done] ex_stopped =
     Some (ex_stopped\<lparr>consumers := [Exited, Running, Running]\<rparr>) \<and>
   (1::nat) < length (consumers ex_sys_closed) \<and> consumers ex_sys_closed ! 1 = Running \<and>
   \<not> panicked ex_sys_closed \<and> ctx_done ex_sys_closed \<and>
   chan_closed (taskChannel (worker ex_sys_closed)) \<and>
   chan_buf (taskChannel (worker ex_sys_closed)) = [99, 11] \<and>
   scanner (ex_stopped\<lparr>consumers := [Exited, Running, Running]\<rparr>) = Exited \<and>
   step (Consumer 1 Worker_ctx_Done) ex_sys_closed =
     Some (ex_sys_closed\<lparr>consumers := [Running, Exited, Running]\<rparr>) \<and>
   map_option
     (\<lambda>d. (chan_buf (taskChannel (worker d)), map (\<lambda>t. (ID t, Status t)) (tasks_coll d),
            consumers d))
     (run (replicate 2 (Consumer 1 (Worker_taskChannel ex_now ex_now None None))) ex_sys_closed) =
   Some ([], [(11, TaskStatusCompleted), (12, TaskStatusPending), (13, TaskStatusCompleted),
              (14, TaskStatusInProgress)], [Running, Running, Running])"
proof -
  have a1: "run [Cancel] (Start (NewTaskWorker 10) ex_coll) = Some ex_cancelled"
    by (simp add: ex_cancelled_def ex_worker_def step_def Start_def)
  have a2: "scanner ex_cancelled = Running \<and> ctx_done ex_cancelled"
    by (simp add: ex_cancelled_def Start_def)
  have a3: "ex_cancelled\<lparr>worker := (worker ex_cancelled)\<lparr>taskChannel :=
        (taskChannel (worker ex_cancelled))\<lparr>chan_closed := True\<rparr>\<rparr>,
      scanner := Exited, logged := logged ex_cancelled @ [LogStopped]\<rparr> = ex_stopped"
    by (simp add: ex_stopped_def ex_cancelled_def Start_def)
  have b1: "scanner ex_stopped = Exited \<and> chan_closed (taskChannel (worker ex_stopped))"
    by (simp add: ex_stopped_def)
  have b2: "run [Consumer 0 Worker_ctx_Done] ex_stopped =
      Some (ex_stopped\<lparr>consumers := [Exited, Running, Running]\<rparr>)"
    by (simp add: ex_stopped_def ex_cancelled_def Start_def step_def processTasksFromChannel_def
        numeral_3_eq_3)
  have c1: "(1::nat) < length (consumers ex_sys_closed) \<and> consumers ex_sys_closed ! 1 = Running \<and>
      \<not> panicked ex_sys_closed \<and> ctx_done ex_sys_closed \<and>
      chan_closed (taskChannel (worker ex_sys_closed)) \<and>
      chan_buf (taskChannel (worker ex_sys_closed)) = [99, 11]"
    by (simp add: ex_sys_closed_def ex_sys_def Start_def numeral_3_eq_3)
  have c2: "(consumers ex_sys_closed)[1 := Exited] = [Running, Exited, Running]"
    by (simp add: ex_sys_closed_def ex_sys_def Start_def numeral_3_eq_3)
  have d1: "map_option
     (\<lambda>d. (chan_buf (taskChannel (worker d)), map (\<lambda>t. (ID t, Status t)) (tasks_coll d),
            consumers d))
     (run (replicate 2 (Consumer 1 (Worker_taskChannel ex_now ex_now None None))) ex_sys_closed) =
   Some ([], [(11, TaskStatusCompleted), (12, TaskStatusPending), (13, TaskStatusCompleted),
              (14, TaskStatusInProgress)], [Running, Running, Running])"
    by code_simp
  note T = cancellation_closes_queue_workers_may_exit_early
  have s1: "step (Scanner Start_ctx_Done) ex_cancelled = Some ex_stopped"
    using T [where evs = "[Cancel]" and minutes = 10 and coll = ex_coll and s = ex_cancelled,
        THEN conjunct1] a1 a2
    by (simp only: a3 simp_thms)
  have s2: "scanner (ex_stopped\<lparr>consumers := [Exited, Running, Running]\<rparr>) = Exited"
    using T [where s = ex_stopped and evs' = "[Consumer 0 Worker_ctx_Done]"
        and s' = "ex_stopped\<lparr>consumers := [Exited, Running, Running]\<rparr>",
        THEN conjunct2, THEN conjunct1] b1 b2
    by (simp only: simp_thms)
  have s3: "step (Consumer 1 Worker_ctx_Done) ex_sys_closed =
      Some (ex_sys_closed\<lparr>consumers := [Running, Exited, Running]\<rparr>)"
    using T [where s = ex_sys_closed and i = 1,
        THEN conjunct2, THEN conjunct2, THEN conjunct1] c1
    by (simp only: c2 simp_thms)
  from a1 a2 s1 b1 b2 c1 s2 s3 d1 show ?thesis
    by (intro conjI) (simp_all only: simp_thms)
qed

end
